theory Spec2Isabelle
  imports Main "HOL-Library.Word" "HOL-Library.Monad_Syntax"
begin

unbundle bit_operations_syntax

section \<open>Buffers and strings\<close>

text \<open>
  A Node \<open>Buffer\<close> is a list of bytes, a JavaScript string a list of UTF-16 code
  units. A Buffer is never longer than \<open>buffer.constants.MAX_LENGTH\<close>, which is
  below \<open>2 ^ 53\<close>: for such lengths the double arithmetic of the source on frame
  lengths is exact, and the model computes on \<open>nat\<close>.

  \<open>None\<close> is the model's value for an exception that escapes: an access of the source
  outside a Buffer, or a \<open>RangeError\<close> of a \<open>writeUInt16BE\<close>.
\<close>

type_synonym byte = "8 word"
type_synonym bytes = "byte list"
type_synonym js_string = "16 word list"

definition str :: "string \<Rightarrow> js_string" where
  "str s = map (\<lambda>ch. of_nat (of_char ch)) s"

subsection \<open>\<open>buf.toString()\<close>: UTF-8 to UTF-16\<close>

text \<open>
  \<open>Buffer.prototype.toString()\<close> decodes UTF-8 and puts U+FFFD for what is not
  well-formed. \<open>utf8_decode n lo hi cp bs\<close> is the decoder of the WHATWG Encoding
  standard: \<open>n\<close> continuation bytes are still needed, the next one within
  \<open>lo..hi\<close>, and \<open>cp\<close> holds the bits read so far.
\<close>

fun utf8_decode :: "nat \<Rightarrow> nat \<Rightarrow> nat \<Rightarrow> nat \<Rightarrow> bytes \<Rightarrow> nat list" where
  "utf8_decode 0 lo hi cp [] = []"
| "utf8_decode (Suc n) lo hi cp [] = [0xFFFD]"
| "utf8_decode 0 lo hi cp (b # bs) =
     (let v = unat b in
      if v \<le> 0x7F then v # utf8_decode 0 0x80 0xBF 0 bs
      else if 0xC2 \<le> v \<and> v \<le> 0xDF then utf8_decode 1 0x80 0xBF (v mod 32) bs
      else if 0xE0 \<le> v \<and> v \<le> 0xEF then
        utf8_decode 2 (if v = 0xE0 then 0xA0 else 0x80) (if v = 0xED then 0x9F else 0xBF)
          (v mod 16) bs
      else if 0xF0 \<le> v \<and> v \<le> 0xF4 then
        utf8_decode 3 (if v = 0xF0 then 0x90 else 0x80) (if v = 0xF4 then 0x8F else 0xBF)
          (v mod 8) bs
      else 0xFFFD # utf8_decode 0 0x80 0xBF 0 bs)"
| "utf8_decode (Suc n) lo hi cp (b # bs) =
     (let v = unat b in
      if v < lo \<or> hi < v then 0xFFFD # utf8_decode 0 0x80 0xBF 0 (b # bs)
      else if n = 0 then (cp * 64 + v mod 64) # utf8_decode 0 0x80 0xBF 0 bs
      else utf8_decode n 0x80 0xBF (cp * 64 + v mod 64) bs)"

definition utf16_units :: "nat \<Rightarrow> js_string" where
  "utf16_units cp =
     (if cp < 0x10000 then [of_nat cp]
      else [of_nat (0xD800 + (cp - 0x10000) div 0x400),
            of_nat (0xDC00 + (cp - 0x10000) mod 0x400)])"

definition toString :: "bytes \<Rightarrow> js_string" where
  "toString bs = concat (map utf16_units (utf8_decode 0 0x80 0xBF 0 bs))"

subsection \<open>\<open>Buffer.from(string)\<close>: UTF-16 to UTF-8\<close>

definition is_high :: "16 word \<Rightarrow> bool" where
  "is_high u = (0xD800 \<le> unat u \<and> unat u \<le> 0xDBFF)"

definition is_low :: "16 word \<Rightarrow> bool" where
  "is_low u = (0xDC00 \<le> unat u \<and> unat u \<le> 0xDFFF)"

text \<open>A surrogate without its partner is encoded as U+FFFD.\<close>

fun utf16_decode :: "js_string \<Rightarrow> nat list" where
  "utf16_decode [] = []"
| "utf16_decode [u] = [if is_high u \<or> is_low u then 0xFFFD else unat u]"
| "utf16_decode (u # v # us) =
     (if is_high u \<and> is_low v then
        (0x10000 + (unat u - 0xD800) * 0x400 + (unat v - 0xDC00)) # utf16_decode us
      else if is_high u \<or> is_low u then 0xFFFD # utf16_decode (v # us)
      else unat u # utf16_decode (v # us))"

definition utf8_bytes :: "nat \<Rightarrow> bytes" where
  "utf8_bytes cp =
     (if cp < 0x80 then [of_nat cp]
      else if cp < 0x800 then [of_nat (0xC0 + cp div 64), of_nat (0x80 + cp mod 64)]
      else if cp < 0x10000 then
        [of_nat (0xE0 + cp div 4096), of_nat (0x80 + (cp div 64) mod 64),
         of_nat (0x80 + cp mod 64)]
      else
        [of_nat (0xF0 + cp div 262144), of_nat (0x80 + (cp div 4096) mod 64),
         of_nat (0x80 + (cp div 64) mod 64), of_nat (0x80 + cp mod 64)])"

definition Buffer_from :: "js_string \<Rightarrow> bytes" where
  "Buffer_from s = concat (map utf8_bytes (utf16_decode s))"

subsection \<open>Checked reads\<close>

text \<open>
  A read outside the Buffer is \<open>None\<close>. (Node throws there for \<open>readUInt16BE\<close> and
  \<open>readUInt32BE\<close>, gives \<open>undefined\<close> for \<open>buffer[i]\<close> and a shorter Buffer for
  \<open>slice\<close>; that none of this ever happens in \<open>extractFrame\<close> is proved below.)
\<close>

definition byte_at :: "bytes \<Rightarrow> nat \<Rightarrow> nat option" where
  "byte_at buf i = (if i < length buf then Some (unat (buf ! i)) else None)"

definition be16 :: "bytes \<Rightarrow> nat \<Rightarrow> nat" where
  "be16 buf off = unat (buf ! off) * 256 + unat (buf ! (off + 1))"

definition be32 :: "bytes \<Rightarrow> nat \<Rightarrow> nat" where
  "be32 buf off =
     unat (buf ! off) * 16777216 + unat (buf ! (off + 1)) * 65536
     + unat (buf ! (off + 2)) * 256 + unat (buf ! (off + 3))"

definition readUInt16BE :: "bytes \<Rightarrow> nat \<Rightarrow> nat option" where
  "readUInt16BE buf off = (if off + 2 \<le> length buf then Some (be16 buf off) else None)"

definition readUInt32BE :: "bytes \<Rightarrow> nat \<Rightarrow> nat option" where
  "readUInt32BE buf off = (if off + 4 \<le> length buf then Some (be32 buf off) else None)"

definition slice :: "bytes \<Rightarrow> nat \<Rightarrow> nat \<Rightarrow> bytes option" where
  "slice buf s e = (if s \<le> e \<and> e \<le> length buf then Some (take (e - s) (drop s buf)) else None)"

definition slice_from :: "bytes \<Rightarrow> nat \<Rightarrow> bytes option" where
  "slice_from buf s = (if s \<le> length buf then Some (drop s buf) else None)"

section \<open>The frame codec (\<open>frame.ts\<close>)\<close>

definition writeUInt16BE :: "nat \<Rightarrow> bytes" where
  "writeUInt16BE v = [of_nat (v div 256), of_nat v]"

definition writeUInt32BE :: "nat \<Rightarrow> bytes" where
  "writeUInt32BE v = [of_nat (v div 16777216), of_nat (v div 65536), of_nat (v div 256), of_nat v]"

text \<open>\<open>payload[i] ^= mask[i % 4]\<close> for every index of the payload.\<close>

definition xor_mask :: "bytes \<Rightarrow> bytes \<Rightarrow> bytes" where
  "xor_mask key payload = map (\<lambda>i. (payload ! i) XOR (key ! (i mod 4))) [0..<length payload]"

text \<open>
  \<open>generateMetaData\<close> returns the header and, since it masks the payload in place, the
  payload as it leaves it. \<open>rnd i\<close> is the byte \<open>Math.floor(Math.random() * 256)\<close>
  of the \<open>i\<close>-th pass of the loop over the mask key.
\<close>

definition generateMetaData ::
  "bool \<Rightarrow> nat \<Rightarrow> bool \<Rightarrow> bytes \<Rightarrow> (nat \<Rightarrow> byte) \<Rightarrow> bytes \<times> bytes" where
  "generateMetaData fin opcode masked payload rnd =
     (let len = length payload;
          b0 = of_nat ((if fin then 128 else 0) + opcode);
          b1 = (if masked then 128 else 0);
          meta =
            (if len < 126 then [b0, of_nat (b1 + len)]
             else if len < 65536 then [b0, of_nat (b1 + 126)] @ writeUInt16BE len
             else [b0, of_nat (b1 + 127)] @ writeUInt32BE (len div 2 ^ 32)
                    @ writeUInt32BE (len mod 2 ^ 32))
      in if masked then
           (let key = map rnd [0..<4] in (meta @ key, xor_mask key payload))
         else (meta, payload))"

definition createTextFrame :: "js_string \<Rightarrow> bool \<Rightarrow> (nat \<Rightarrow> byte) \<Rightarrow> bytes" where
  "createTextFrame data masked rnd =
     (let (meta, payload) = generateMetaData True 1 masked (Buffer_from data) rnd
      in meta @ payload)"

definition createBinaryFrame :: "bytes \<Rightarrow> bool \<Rightarrow> bool \<Rightarrow> bool \<Rightarrow> (nat \<Rightarrow> byte) \<Rightarrow> bytes" where
  "createBinaryFrame data masked first fin rnd =
     (let (meta, payload) = generateMetaData fin (if first then 2 else 0) masked data rnd
      in meta @ payload)"

text \<open>
  \<open>code\<close> is \<open>None\<close> for \<open>undefined\<close>; \<open>writeUInt16BE\<close> throws a \<open>RangeError\<close> for a
  code outside \<open>0..65535\<close>. The two bytes of the code overwrite the \<open>--\<close>.
\<close>

definition createCloseFrame ::
  "int option \<Rightarrow> js_string option \<Rightarrow> bool \<Rightarrow> (nat \<Rightarrow> byte) \<Rightarrow> bytes option" where
  "createCloseFrame code reason masked rnd =
     (let reason' = (case reason of None \<Rightarrow> [] | Some r \<Rightarrow> r) in
      do {
        payload \<leftarrow>
          (case code of
             None \<Rightarrow> Some []
           | Some n \<Rightarrow>
               if n \<noteq> 0 \<and> n \<noteq> 1005 then
                 (if 0 \<le> n \<and> n \<le> 65535 then
                    Some (writeUInt16BE (nat n) @ drop 2 (Buffer_from (str ''--'' @ reason')))
                  else None)
               else Some []);
        let (meta, payload') = generateMetaData True 8 masked payload rnd;
        Some (meta @ payload')
      })"

definition createPingFrame :: "js_string \<Rightarrow> bool \<Rightarrow> (nat \<Rightarrow> byte) \<Rightarrow> bytes" where
  "createPingFrame data masked rnd =
     (let (meta, payload) = generateMetaData True 9 masked (Buffer_from data) rnd
      in meta @ payload)"

definition createPongFrame :: "js_string \<Rightarrow> bool \<Rightarrow> (nat \<Rightarrow> byte) \<Rightarrow> bytes" where
  "createPongFrame data masked rnd =
     (let (meta, payload) = generateMetaData True 10 masked (Buffer_from data) rnd
      in meta @ payload)"

section \<open>The connection (\<open>Connection\<close> and \<open>AppConnection\<close>)\<close>

text \<open>
  The repository holds the connection twice: class \<open>Connection\<close> of the library
  (server or client role) and class \<open>AppConnection\<close> of the sign dispatcher (server
  role only, \<open>this.server\<close> is its \<open>SocketApp\<close>). The methods are the same text but
  for a few lines; \<open>impl\<close> says whose line is meant where they differ.
\<close>

datatype impl = Lib | App

datatype ready_state = CONNECTING | OPEN | CLOSING | CLOSED

text \<open>
  The assembly slot \<open>frameBuffer\<close>. \<open>Connection\<close> declares it without a value
  (\<open>undefined\<close>) and resets it to \<open>undefined\<close>; \<open>AppConnection\<close> starts it as the
  empty string and resets it to the empty string.
\<close>

datatype frame_buffer = FB_null | FB_undefined | FB_string js_string | FB_InStream

datatype out_stream = OS_undefined | OS_string js_string | OS_OutStream

text \<open>What a connection does to the outside, in the order it does it.\<close>

datatype effect =
    SocketWrite bytes
  | SocketEnd "js_string option"
  | Emit_connect
  | Emit_text js_string
  | Emit_binary
  | Emit_pong js_string
  | Emit_close "int option" "js_string option"
  | Emit_error
  | InStream_addData bytes
  | InStream_end
  | OutStream_end

text \<open>
  \<open>server\<close>: \<open>this.server\<close> is set. \<open>entropy\<close> and \<open>drawn\<close>: the bytes
  \<open>Math.random\<close> will give for mask keys, and how many were taken.
\<close>

record conn =
  server :: bool
  readyState :: ready_state
  buffer :: bytes
  frameBuffer :: frame_buffer
  outStream :: out_stream
  entropy :: "nat \<Rightarrow> byte"
  drawn :: nat
  trace :: "effect list"

definition emit :: "effect \<Rightarrow> conn \<Rightarrow> conn" where
  "emit e c = c\<lparr>trace := trace c @ [e]\<rparr>"

text \<open>The \<open>masked\<close> argument of the frames a connection sends.\<close>

definition masked_out :: "impl \<Rightarrow> conn \<Rightarrow> bool" where
  "masked_out impl c = (case impl of Lib \<Rightarrow> \<not> server c | App \<Rightarrow> False)"

definition rnd :: "conn \<Rightarrow> nat \<Rightarrow> byte" where
  "rnd c i = entropy c (drawn c + i)"

definition socket_write :: "bool \<Rightarrow> bytes \<Rightarrow> conn \<Rightarrow> conn" where
  "socket_write masked frame c =
     c\<lparr>trace := trace c @ [SocketWrite frame], drawn := drawn c + (if masked then 4 else 0)\<rparr>"

text \<open>JavaScript's truthiness of the slot, and the value a finished message leaves in it.\<close>

definition truthy :: "frame_buffer \<Rightarrow> bool" where
  "truthy fb = (case fb of FB_string s \<Rightarrow> s \<noteq> [] | FB_InStream \<Rightarrow> True | _ \<Rightarrow> False)"

definition empty_slot :: "impl \<Rightarrow> frame_buffer" where
  "empty_slot impl = (case impl of Lib \<Rightarrow> FB_undefined | App \<Rightarrow> FB_string [])"

definition empty_out :: "impl \<Rightarrow> out_stream" where
  "empty_out impl = (case impl of Lib \<Rightarrow> OS_undefined | App \<Rightarrow> OS_string [])"

text \<open>
  A connection as its constructor leaves it. The server of an \<open>AppConnection\<close> is
  always there.
\<close>

definition constructor :: "impl \<Rightarrow> bool \<Rightarrow> (nat \<Rightarrow> byte) \<Rightarrow> conn" where
  "constructor impl srv ent =
     \<lparr>server = (case impl of Lib \<Rightarrow> srv | App \<Rightarrow> True), readyState = CONNECTING, buffer = [],
      frameBuffer = empty_slot impl, outStream = empty_out impl, entropy = ent, drawn = 0,
      trace = []\<rparr>"

subsection \<open>\<open>processCloseFrame\<close> and \<open>processFrame\<close>\<close>

definition processCloseFrame :: "impl \<Rightarrow> bytes \<Rightarrow> conn \<Rightarrow> conn option" where
  "processCloseFrame impl payload c =
     do {
       (code, reason) \<leftarrow>
         (if length payload \<ge> 2 then
            do {
              code \<leftarrow> readUInt16BE payload 0;
              rest \<leftarrow> slice_from payload 2;
              Some (int code, toString rest)
            }
          else Some (1005, []));
       frame \<leftarrow> createCloseFrame (Some code) (Some reason) (masked_out impl c) (rnd c);
       Some (emit (Emit_close (Some code) (Some reason))
               ((socket_write (masked_out impl c) frame c)\<lparr>readyState := CLOSED\<rparr>))
     }"

text \<open>
  The two tests on the slot read \<open>this.frameBuffer === null\<close> and
  \<open>this.frameBuffer !== null\<close> in \<open>Connection\<close>, \<open>!this.frameBuffer\<close> and
  \<open>this.frameBuffer\<close> in \<open>AppConnection\<close>.
\<close>

definition no_assembly :: "impl \<Rightarrow> frame_buffer \<Rightarrow> bool" where
  "no_assembly impl fb = (case impl of Lib \<Rightarrow> fb = FB_null | App \<Rightarrow> \<not> truthy fb)"

text \<open>
  The last block of \<open>processFrame\<close>, which puts the payload of a data frame into the
  slot: the branch of \<open>typeof this.frameBuffer === 'string'\<close> and the branch of the
  \<open>InStream\<close>.
\<close>

definition assemble :: "impl \<Rightarrow> bool \<Rightarrow> bytes \<Rightarrow> conn \<Rightarrow> conn" where
  "assemble impl fin payload c =
     (case frameBuffer c of
        FB_string s \<Rightarrow>
          (let payload_string = toString payload;
               fb = (if s \<noteq> [] then s @ payload_string else payload_string);
               c1 = c\<lparr>frameBuffer := FB_string fb\<rparr>
           in if fin then (emit (Emit_text fb) c1)\<lparr>frameBuffer := empty_slot impl\<rparr> else c1)
      | fb \<Rightarrow>
          (let c1 = (if \<not> truthy fb then emit Emit_binary (c\<lparr>frameBuffer := FB_InStream\<rparr>)
                     else c);
               c2 = emit (InStream_addData payload) c1
           in if fin then (emit InStream_end c2)\<lparr>frameBuffer := empty_slot impl\<rparr> else c2))"

definition processFrame :: "impl \<Rightarrow> bool \<Rightarrow> nat \<Rightarrow> bytes \<Rightarrow> conn \<Rightarrow> (bool \<times> conn) option" where
  "processFrame impl fin opcode payload c =
     (if opcode = 8 then
        (if readyState c = CLOSING then Some (True, emit (SocketEnd None) c)
         else if readyState c = OPEN then
           do { c' \<leftarrow> processCloseFrame impl payload c; Some (True, c') }
         else Some (True, c))
      else if opcode = 9 then
        (if readyState c = OPEN then
           Some (True, socket_write (masked_out impl c)
                   (createPongFrame (toString payload) (masked_out impl c) (rnd c)) c)
         else Some (True, c))
      else if opcode = 10 then Some (True, emit (Emit_pong (toString payload)) c)
      else if readyState c \<noteq> OPEN then Some (True, c)
      else if opcode = 0 \<and> no_assembly impl (frameBuffer c) then Some (False, c)
      else if opcode \<noteq> 0 \<and> \<not> no_assembly impl (frameBuffer c) then Some (False, c)
      else Some (True, assemble impl fin payload c))"

subsection \<open>\<open>extractFrame\<close>\<close>

text \<open>
  \<open>decodeFrame\<close> is \<open>extractFrame\<close> up to the payload: what it returns without a frame
  (\<open>undefined\<close> for need-more-data, \<open>false\<close> for a protocol error), or the frame with
  the buffer that is left. \<open>extractFrame\<close> stores that buffer and calls
  \<open>processFrame\<close>. The tests and the two longer blocks of the method have names
  of their own here.
\<close>

datatype extracted = NeedMoreData | ProtocolError | Frame bool nat bytes bytes

text \<open>The test on the opcode, and the test of the mask bit against the role.\<close>

definition valid_opcode :: "nat \<Rightarrow> bool" where
  "valid_opcode opcode =
     (opcode = 0 \<or> opcode = 1 \<or> opcode = 2 \<or> opcode = 8 \<or> opcode = 9 \<or> opcode = 10)"

definition mask_violation :: "impl \<Rightarrow> bool \<Rightarrow> bool \<Rightarrow> bool" where
  "mask_violation impl srv hasMask =
     (case impl of
        Lib \<Rightarrow> (srv \<and> \<not> hasMask) \<or> (\<not> srv \<and> hasMask)
      | App \<Rightarrow> srv \<and> \<not> hasMask)"

text \<open>The block that reads the extended length: the new \<open>len\<close> and \<open>start\<close>.\<close>

definition resolve_length :: "bytes \<Rightarrow> nat \<Rightarrow> nat \<Rightarrow> (nat \<times> nat) option" where
  "resolve_length buf len start =
     (if len = 126 then
        do { l \<leftarrow> readUInt16BE buf 2; Some (l, start + 2) }
      else if len = 127 then
        do {
          h \<leftarrow> readUInt32BE buf 2;
          l \<leftarrow> readUInt32BE buf 6;
          Some (h * 2 ^ 32 + l, start + 8)
        }
      else Some (len, start))"

text \<open>The block that slices the payload, unmasks it and slices the rest of the buffer.\<close>

definition take_payload :: "bytes \<Rightarrow> bool \<Rightarrow> nat \<Rightarrow> nat \<Rightarrow> (bytes \<times> bytes) option" where
  "take_payload buf hasMask start len =
     do {
       payload \<leftarrow> slice buf start (start + len);
       payload' \<leftarrow>
         (if hasMask then
            do { key \<leftarrow> slice buf (start - 4) start; Some (xor_mask key payload) }
          else Some payload);
       rest \<leftarrow> slice_from buf (start + len);
       Some (payload', rest)
     }"

definition decodeFrame :: "impl \<Rightarrow> bool \<Rightarrow> bytes \<Rightarrow> extracted option" where
  "decodeFrame impl srv buf =
     (if length buf < 2 then Some NeedMoreData
      else do {
        B \<leftarrow> byte_at buf 0;
        let HB = B div 16;
        let fin = (HB = 8);
        let opcode = B mod 16;
        if HB mod 8 \<noteq> 0 then Some ProtocolError
        else if \<not> valid_opcode opcode then Some ProtocolError
        else if opcode \<ge> 8 \<and> \<not> fin then Some ProtocolError
        else do {
          B1 \<leftarrow> byte_at buf 1;
          let hasMask = (B1 div 128 \<noteq> 0);
          let len7 = B1 mod 128;
          let start0 = (if hasMask then 6 else 2);
          if mask_violation impl srv hasMask then Some ProtocolError
          else if length buf < start0 + len7 then Some NeedMoreData
          else do {
            (len, start) \<leftarrow> resolve_length buf len7 start0;
            if length buf < start + len then Some NeedMoreData
            else do {
              (payload, rest) \<leftarrow> take_payload buf hasMask start len;
              Some (Frame fin opcode payload rest)
            }
          }
        }
      })"

text \<open>
  What \<open>extractFrame\<close> returns is \<open>None\<close> for \<open>undefined\<close>, else the boolean;
  \<open>returned\<close> passes on what \<open>processFrame\<close> returns.
\<close>

definition returned :: "(bool \<times> conn) option \<Rightarrow> (bool option \<times> conn) option" where
  "returned r = do { (ok, c') \<leftarrow> r; Some (Some ok, c') }"

definition extractFrame :: "impl \<Rightarrow> conn \<Rightarrow> (bool option \<times> conn) option" where
  "extractFrame impl c =
     do {
       r \<leftarrow> decodeFrame impl (server c) (buffer c);
       (case r of
          NeedMoreData \<Rightarrow> Some (None, c)
        | ProtocolError \<Rightarrow> Some (Some False, c)
        | Frame fin opcode payload rest \<Rightarrow>
            returned (processFrame impl fin opcode payload (c\<lparr>buffer := rest\<rparr>)))
     }"

subsection \<open>The frame at the head of a buffer\<close>

text \<open>
  What RFC 6455 lays out in the bytes of a frame: FIN and opcode in the first byte, the
  mask bit and the 7-bit length in the second, then the extended length (2 bytes for
  126, 8 bytes for 127), then the mask key, then the payload.
\<close>

definition hdr_fin :: "bytes \<Rightarrow> bool" where
  "hdr_fin buf = (unat (buf ! 0) div 16 = 8)"

definition hdr_opcode :: "bytes \<Rightarrow> nat" where
  "hdr_opcode buf = unat (buf ! 0) mod 16"

definition hdr_masked :: "bytes \<Rightarrow> bool" where
  "hdr_masked buf = (unat (buf ! 1) div 128 \<noteq> 0)"

definition hdr_len7 :: "bytes \<Rightarrow> nat" where
  "hdr_len7 buf = unat (buf ! 1) mod 128"

definition hdr_size :: "bytes \<Rightarrow> nat" where
  "hdr_size buf =
     2 + (if hdr_len7 buf = 126 then 2 else if hdr_len7 buf = 127 then 8 else 0)
       + (if hdr_masked buf then 4 else 0)"

definition payload_len :: "bytes \<Rightarrow> nat" where
  "payload_len buf =
     (if hdr_len7 buf = 126 then be16 buf 2
      else if hdr_len7 buf = 127 then be32 buf 2 * 2 ^ 32 + be32 buf 6
      else hdr_len7 buf)"

definition frame_size :: "bytes \<Rightarrow> nat" where
  "frame_size buf = hdr_size buf + payload_len buf"

definition frame_payload :: "bytes \<Rightarrow> bytes" where
  "frame_payload buf =
     (let p = take (payload_len buf) (drop (hdr_size buf) buf)
      in if hdr_masked buf then xor_mask (take 4 (drop (hdr_size buf - 4) buf)) p else p)"

text \<open>The header passes the four tests of \<open>extractFrame\<close> that return \<open>false\<close>.\<close>

definition header_ok :: "impl \<Rightarrow> bool \<Rightarrow> bytes \<Rightarrow> bool" where
  "header_ok impl srv buf =
     (unat (buf ! 0) div 16 mod 8 = 0 \<and> valid_opcode (hdr_opcode buf)
      \<and> \<not> (hdr_opcode buf \<ge> 8 \<and> \<not> hdr_fin buf)
      \<and> \<not> mask_violation impl srv (hdr_masked buf))"

lemma resolve_length_eq:
  "(if hdr_masked buf then 6 else 2) + hdr_len7 buf \<le> length buf \<Longrightarrow>
   resolve_length buf (hdr_len7 buf) (if hdr_masked buf then 6 else 2)
     = Some (payload_len buf, hdr_size buf)"
  by (simp add: resolve_length_def readUInt16BE_def readUInt32BE_def payload_len_def hdr_size_def)

lemma take_payload_eq:
  "hdr_size buf + payload_len buf \<le> length buf \<Longrightarrow>
   take_payload buf (hdr_masked buf) (hdr_size buf) (payload_len buf)
     = Some (frame_payload buf, drop (frame_size buf) buf)"
  by (auto simp add: take_payload_def slice_def slice_from_def frame_payload_def frame_size_def
      hdr_size_def Let_def split: if_splits)

text \<open>What \<open>decodeFrame\<close> computes, read off the header. No read leaves the buffer.\<close>

lemma decodeFrame_eq:
  "decodeFrame impl srv buf = Some (
     if length buf < 2 then NeedMoreData
     else if \<not> header_ok impl srv buf then ProtocolError
     else if length buf < (if hdr_masked buf then 6 else 2) + hdr_len7 buf then NeedMoreData
     else if length buf < frame_size buf then NeedMoreData
     else Frame (hdr_fin buf) (hdr_opcode buf) (frame_payload buf) (drop (frame_size buf) buf))"
proof (cases "length buf < 2")
  case True
  then show ?thesis by (simp add: decodeFrame_def)
next
  case False
  then have b0: "byte_at buf 0 = Some (unat (buf ! 0))"
    and b1: "byte_at buf 1 = Some (unat (buf ! 1))"
    by (auto simp add: byte_at_def)
  note defs = header_ok_def hdr_opcode_def hdr_fin_def hdr_masked_def hdr_len7_def
  show ?thesis
  proof (cases "header_ok impl srv buf")
    case ok: False
    then show ?thesis using False b0 b1
      by (auto simp add: decodeFrame_def Let_def defs)
  next
    case ok: True
    show ?thesis
    proof (cases "length buf < (if hdr_masked buf then 6 else 2) + hdr_len7 buf")
      case True
      then show ?thesis using False ok b0 b1
        by (simp add: decodeFrame_def Let_def defs)
    next
      case long: False
      have rl: "resolve_length buf (hdr_len7 buf) (if hdr_masked buf then 6 else 2)
                  = Some (payload_len buf, hdr_size buf)"
        using resolve_length_eq[of buf] long by simp
      show ?thesis
      proof (cases "length buf < frame_size buf")
        case True
        then show ?thesis using False ok long b0 b1 rl
          by (simp add: decodeFrame_def Let_def defs frame_size_def)
      next
        case full: False
        have tp: "take_payload buf (hdr_masked buf) (hdr_size buf) (payload_len buf)
                    = Some (frame_payload buf, drop (frame_size buf) buf)"
          using take_payload_eq[of buf] full by (simp add: frame_size_def)
        show ?thesis using False ok long full b0 b1 rl tp
          by (simp add: decodeFrame_def Let_def defs frame_size_def)
      qed
    qed
  qed
qed

text \<open>A call of \<open>extractFrame\<close> that returns \<open>true\<close> has taken bytes off the buffer.\<close>

lemma buffer_emit [simp]: "buffer (emit e c) = buffer c"
  by (simp add: emit_def)

lemma buffer_socket_write [simp]: "buffer (socket_write m f c) = buffer c"
  by (simp add: socket_write_def)

lemma processCloseFrame_buffer:
  "processCloseFrame impl payload c = Some c' \<Longrightarrow> buffer c' = buffer c"
  by (auto simp: processCloseFrame_def split: bind_splits if_splits prod.splits)

lemma assemble_buffer [simp]: "buffer (assemble impl fin payload c) = buffer c"
  by (simp add: assemble_def Let_def split: frame_buffer.split)

lemma processFrame_buffer:
  "processFrame impl fin opcode payload c = Some (ok, c') \<Longrightarrow> buffer c' = buffer c"
  unfolding processFrame_def
  by (auto split: if_splits bind_splits dest: processCloseFrame_buffer)

lemma decodeFrame_rest:
  assumes "decodeFrame impl srv buf = Some (Frame fin opcode payload rest)"
  shows "length rest < length buf"
proof -
  have "2 \<le> frame_size buf" by (simp add: frame_size_def hdr_size_def)
  with assms show ?thesis
    unfolding decodeFrame_eq by (auto split: if_splits)
qed

lemma extractFrame_eq:
  "extractFrame impl c =
     (if length (buffer c) < 2 then Some (None, c)
      else if \<not> header_ok impl (server c) (buffer c) then Some (Some False, c)
      else if length (buffer c) < (if hdr_masked (buffer c) then 6 else 2) + hdr_len7 (buffer c)
        then Some (None, c)
      else if length (buffer c) < frame_size (buffer c) then Some (None, c)
      else returned (processFrame impl (hdr_fin (buffer c)) (hdr_opcode (buffer c))
                       (frame_payload (buffer c))
                       (c\<lparr>buffer := drop (frame_size (buffer c)) (buffer c)\<rparr>)))"
  by (simp add: extractFrame_def decodeFrame_eq)

lemma extractFrame_consumes:
  assumes "extractFrame impl c = Some (Some True, c')"
  shows "length (buffer c') < length (buffer c)"
proof -
  from assms obtain fin opcode payload rest ok where
    d: "decodeFrame impl (server c) (buffer c) = Some (Frame fin opcode payload rest)"
    and p: "processFrame impl fin opcode payload (c\<lparr>buffer := rest\<rparr>) = Some (ok, c')"
    by (auto simp: extractFrame_def returned_def split: bind_splits extracted.splits)
  from processFrame_buffer[OF p] decodeFrame_rest[OF d] show ?thesis by simp
qed

subsection \<open>\<open>close\<close>, the socket's \<open>close\<close> handler, \<open>readHandshake\<close> and \<open>doRead\<close>\<close>

definition close :: "impl \<Rightarrow> int option \<Rightarrow> js_string option \<Rightarrow> conn \<Rightarrow> conn option" where
  "close impl code reason c =
     do {
       c1 \<leftarrow>
         (if readyState c = OPEN then
            do {
              frame \<leftarrow> createCloseFrame code reason (masked_out impl c) (rnd c);
              Some ((socket_write (masked_out impl c) frame c)\<lparr>readyState := CLOSING\<rparr>)
            }
          else if readyState c \<noteq> CLOSED then
            Some ((emit (SocketEnd None) c)\<lparr>readyState := CLOSED\<rparr>)
          else Some c);
       Some (emit (Emit_close code reason) c1)
     }"

text \<open>\<open>onclose\<close>, the listener of the socket's \<open>close\<close> and \<open>finish\<close> events.\<close>

definition onclose :: "impl \<Rightarrow> conn \<Rightarrow> conn" where
  "onclose impl c =
     (let c1 = (if readyState c = CONNECTING \<or> readyState c = OPEN
                then emit (Emit_close (Some 1006) (Some [])) c else c);
          c2 = c1\<lparr>readyState := CLOSED\<rparr>;
          c3 = (if frameBuffer c2 = FB_InStream
                then (emit InStream_end c2)\<lparr>frameBuffer := empty_slot impl\<rparr> else c2)
      in if outStream c3 = OS_OutStream
         then (emit OutStream_end c3)\<lparr>outStream := empty_out impl\<rparr> else c3)"

text \<open>The loop of \<open>readHandshake\<close> that looks for the empty line.\<close>

fun find_blank_line :: "bytes \<Rightarrow> nat \<Rightarrow> nat option" where
  "find_blank_line (a # b # c # d # rest) i =
     (if a = 13 \<and> c = 13 \<and> b = 10 \<and> d = 10 then Some i
      else find_blank_line (b # c # d # rest) (Suc i))"
| "find_blank_line _ i = None"

definition bad_request :: js_string where
  "bad_request = str ''HTTP/1.1 400 Bad Request'' @ [13, 10, 13, 10]"

text \<open>
  \<open>hs\<close> stands for what \<open>readHandshake\<close> does with the header block once it is
  found: \<open>toString().split('\r\n')\<close>, then \<open>answerHandshake\<close> or \<open>checkHandshake\<close>
  (regular expressions and the SHA-1 of the runtime). It gets the block and the
  connection and returns the verdict and the connection.
\<close>

definition readHandshake ::
  "impl \<Rightarrow> nat \<Rightarrow> (bytes \<Rightarrow> conn \<Rightarrow> bool \<times> conn) \<Rightarrow> conn \<Rightarrow> bool \<times> conn" where
  "readHandshake impl maxBufferLength hs c =
     (if length (buffer c) > maxBufferLength then
        (case impl of
           Lib \<Rightarrow>
             if server c then (False, emit (SocketEnd (Some bad_request)) c)
             else (False, emit Emit_error (emit (SocketEnd None) c))
         | App \<Rightarrow> (False, emit (SocketEnd (Some bad_request)) c))
      else
        (case find_blank_line (buffer c) 0 of
           None \<Rightarrow> (False, c)
         | Some i \<Rightarrow>
             (let (ok, c1) = hs (take (i + 4) (buffer c)) c in
              if ok then
                (True, emit Emit_connect (c1\<lparr>buffer := drop (i + 4) (buffer c1), readyState := OPEN\<rparr>))
              else
                (False,
                 emit (SocketEnd (Some (case impl of
                                          Lib \<Rightarrow> if server c1 then bad_request else []
                                        | App \<Rightarrow> bad_request))) c1))))"

text \<open>\<open>while ((temp = this.extractFrame()) === true) {}\<close>, returning \<open>temp\<close>.\<close>

function extract_loop :: "impl \<Rightarrow> conn \<Rightarrow> (bool option \<times> conn) option" where
  "extract_loop impl c =
     (case extractFrame impl c of
        None \<Rightarrow> None
      | Some (temp, c') \<Rightarrow> if temp = Some True then extract_loop impl c' else Some (temp, c'))"
  by pat_completeness auto
termination
  by (relation "measure (\<lambda>(impl, c). length (buffer c))") (auto dest: extractFrame_consumes)

declare extract_loop.simps [simp del]

text \<open>
  \<open>this.readyState === this.CONNECTING && !this.readHandshake()\<close>, negated: whether
  \<open>doRead\<close> goes on to the frames, and the connection after the test.
\<close>

definition handshake_gate ::
  "impl \<Rightarrow> nat \<Rightarrow> (bytes \<Rightarrow> conn \<Rightarrow> bool \<times> conn) \<Rightarrow> conn \<Rightarrow> bool \<times> conn" where
  "handshake_gate impl maxBufferLength hs c =
     (if readyState c = CONNECTING then readHandshake impl maxBufferLength hs c else (True, c))"

text \<open>\<open>chunk\<close> is what \<open>this.socket.read()\<close> returns, \<open>None\<close> for \<open>null\<close>.\<close>

definition doRead ::
  "impl \<Rightarrow> nat \<Rightarrow> (bytes \<Rightarrow> conn \<Rightarrow> bool \<times> conn) \<Rightarrow> bytes option \<Rightarrow> conn \<Rightarrow> conn option" where
  "doRead impl maxBufferLength hs chunk c =
     (case chunk of
        None \<Rightarrow> Some c
      | Some data \<Rightarrow>
          (let (go, c2) = handshake_gate impl maxBufferLength hs (c\<lparr>buffer := buffer c @ data\<rparr>)
           in if \<not> go then Some c2
              else if readyState c2 \<noteq> CLOSED then
                do {
                  (temp, c3) \<leftarrow> extract_loop impl c2;
                  if temp = Some False then close impl (Some 1002) None c3
                  else if length (buffer c3) > maxBufferLength then close impl (Some 1009) None c3
                  else Some c3
                }
              else Some c2))"

section \<open>The lifetime of a connection\<close>

text \<open>
  What happens to a connection from outside: the socket is readable and \<open>read()\<close>
  returns a chunk or \<open>null\<close>; the user calls \<open>close(code, reason)\<close>; the socket emits
  \<open>close\<close> or \<open>finish\<close>, which runs \<open>onclose\<close>. A call that throws leaves the
  connection as it was.
\<close>

datatype event =
    Readable "bytes option"
  | Close_call "int option" "js_string option"
  | Socket_closed

definition step ::
  "impl \<Rightarrow> nat \<Rightarrow> (bytes \<Rightarrow> conn \<Rightarrow> bool \<times> conn) \<Rightarrow> event \<Rightarrow> conn \<Rightarrow> conn" where
  "step impl maxBufferLength hs e c =
     (case e of
        Readable chunk \<Rightarrow>
          (case doRead impl maxBufferLength hs chunk c of Some c' \<Rightarrow> c' | None \<Rightarrow> c)
      | Close_call code reason \<Rightarrow>
          (case close impl code reason c of Some c' \<Rightarrow> c' | None \<Rightarrow> c)
      | Socket_closed \<Rightarrow> onclose impl c)"

fun lifetime ::
  "impl \<Rightarrow> nat \<Rightarrow> (bytes \<Rightarrow> conn \<Rightarrow> bool \<times> conn) \<Rightarrow> event list \<Rightarrow> conn \<Rightarrow> conn" where
  "lifetime impl maxBufferLength hs [] c = c"
| "lifetime impl maxBufferLength hs (e # es) c =
     lifetime impl maxBufferLength hs es (step impl maxBufferLength hs e c)"

text \<open>The number of \<open>close\<close> events a connection has emitted.\<close>

definition is_close :: "effect \<Rightarrow> bool" where
  "is_close e = (case e of Emit_close code reason \<Rightarrow> True | _ \<Rightarrow> False)"

definition close_events :: "conn \<Rightarrow> nat" where
  "close_events c = length (filter is_close (trace c))"

text \<open>
  What the claims on \<open>close\<close> events ask of the handshake code behind \<open>hs\<close>
  (\<open>answerHandshake\<close>, \<open>checkHandshake\<close>): it writes to the socket and fills in headers
  and protocols, but it neither assigns \<open>readyState\<close> nor emits \<open>close\<close>; every
  assignment to \<open>readyState\<close> and every \<open>emit('close', ...)\<close> of the two classes is in
  the functions above.
\<close>

definition hs_ok :: "(bytes \<Rightarrow> conn \<Rightarrow> bool \<times> conn) \<Rightarrow> bool" where
  "hs_ok hs = (\<forall>b c. readyState (snd (hs b c)) = readyState c
                     \<and> close_events (snd (hs b c)) = close_events c)"

text \<open>A connection is still \<open>CONNECTING\<close> or \<open>OPEN\<close> exactly when it has emitted no \<open>close\<close>.\<close>

definition close_inv :: "conn \<Rightarrow> bool" where
  "close_inv c = ((readyState c = CONNECTING \<or> readyState c = OPEN) = (close_events c = 0))"


section \<open>The default subprotocol selector\<close>

text \<open>
  \<open>Server._buildSelectProtocol(validProtocols)\<close> of the library and the default
  \<open>_selectProtocol\<close> of \<open>SocketApp\<close> are the same loop:
  \<^verbatim>\<open>for (const protocol in protocols) { if (validProtocols.indexOf(protocol) !== -1) return protocol }\<close>
  and \<open>undefined\<close> after it. \<open>for ... in\<close> over an array runs through its keys, the
  indices as decimal strings, in ascending order; over \<open>undefined\<close> it does not run.
\<close>

fun decimal :: "nat \<Rightarrow> string" where
  "decimal n =
     (if n < 10 then [char_of (48 + n)] else decimal (n div 10) @ [char_of (48 + n mod 10)])"

declare decimal.simps [simp del]

definition buildSelectProtocol ::
  "js_string list \<Rightarrow> js_string list option \<Rightarrow> js_string option" where
  "buildSelectProtocol validProtocols protocols =
     (case protocols of
        None \<Rightarrow> None
      | Some ps \<Rightarrow> find (\<lambda>protocol. protocol \<in> set validProtocols)
                    (map (\<lambda>i. str (decimal i)) [0..<length ps]))"

section \<open>The sign dispatcher of \<open>SocketApp\<close>\<close>

text \<open>
  What \<open>JSON.parse\<close> returns. \<open>'n\<close> is the type of numbers, which the dispatcher
  never looks into. The pairs of a \<open>JObject\<close> are its own properties.
\<close>

datatype 'n json =
    JNull
  | JBool bool
  | JNumber 'n
  | JString js_string
  | JArray "'n json list"
  | JObject "(js_string \<times> 'n json) list"

text \<open>
  The first argument of a handler: \<open>data\<close> (\<open>None\<close> for \<open>undefined\<close>) in the chain of
  a sign, the text itself in the \<open>noJSON\<close> chain.
\<close>

datatype 'n arg = Data "'n json option" | Raw js_string

text \<open>
  A handler \<open>(data, conn, next) => void\<close> is user code. The dispatcher sees of it
  the calls of \<open>next()\<close> it makes, one after the other, and whether it throws after
  them; the handler does not catch what \<open>next()\<close> throws. \<open>label\<close> names the
  handler in the record of calls.
\<close>

datatype action = Call_next | Throw

datatype 'n handler = Handler (label: string) (body: "'n arg \<Rightarrow> action list")

datatype 'n call = Invoked string "'n arg"

datatype outcome = Returned | Thrown

text \<open>
  \<open>private signs = new Map<string, SocketApp.ConnectCallback[]>()\<close> and
  \<open>sign(sign, ...callback)\<close>:
  \<^verbatim>\<open>this.signs.set(sign, this.signs.get(sign)?.concat(...callback) || callback)\<close>.
\<close>

type_synonym 'n signs = "js_string \<rightharpoonup> 'n handler list"

definition sign :: "js_string \<Rightarrow> 'n handler list \<Rightarrow> 'n signs \<Rightarrow> 'n signs" where
  "sign s callback signs =
     signs(s \<mapsto> (case signs s of Some cbs \<Rightarrow> cbs @ callback | None \<Rightarrow> callback))"

text \<open>
  \<^verbatim>\<open>const next = () => { i++; if (i < cbs.length) cbs[i](data, conn, next) }\<close>
  with the handlers run to their end: \<open>i\<close> is the counter the calls share, the list of
  actions is what is left to run, of the handler that runs and then of those that
  called it. A \<open>Throw\<close> leaves them all. (A negative index, which \<open>i\<close> never is here,
  would call \<open>undefined\<close>.)
\<close>

function next_loop ::
  "'n handler list \<Rightarrow> 'n arg \<Rightarrow> int \<Rightarrow> action list \<Rightarrow> 'n call list
     \<Rightarrow> outcome \<times> 'n call list" where
  "next_loop cbs a i [] tr = (Returned, tr)"
| "next_loop cbs a i (Throw # k) tr = (Thrown, tr)"
| "next_loop cbs a i (Call_next # k) tr =
     (if i + 1 < int (length cbs) then
        if i + 1 < 0 then (Thrown, tr)
        else next_loop cbs a (i + 1) (body (cbs ! nat (i + 1)) a @ k)
               (tr @ [Invoked (label (cbs ! nat (i + 1))) a])
      else next_loop cbs a (i + 1) k tr)"
  by pat_completeness auto
termination
  by (relation "measures [\<lambda>(cbs, a, i, k, tr). nat (int (length cbs) - i),
                          \<lambda>(cbs, a, i, k, tr). length k]") auto

text \<open>\<open>let i = -1\<close>, the definition of \<open>next\<close>, and \<open>next()\<close>.\<close>

definition chain :: "'n handler list \<Rightarrow> 'n arg \<Rightarrow> 'n call list \<Rightarrow> outcome \<times> 'n call list" where
  "chain cbs a tr = next_loop cbs a (- 1) [Call_next] tr"

text \<open>
  \<open>const { sign, data } = v\<close>: a \<open>TypeError\<close> on \<open>null\<close>, the two properties of an
  object (\<open>undefined\<close> where it has none), \<open>undefined\<close> twice on a boolean, a number, a
  string or an array, none of which has a property \<open>sign\<close> or \<open>data\<close>.
\<close>

definition destructure :: "'n json \<Rightarrow> ('n json option \<times> 'n json option) option" where
  "destructure v =
     (case v of
        JNull \<Rightarrow> None
      | JObject kvs \<Rightarrow> Some (map_of kvs (str ''sign''), map_of kvs (str ''data''))
      | _ \<Rightarrow> Some (None, None))"

text \<open>\<open>this.signs.get(sign)\<close>: the keys of the map are strings.\<close>

definition signs_get :: "'n signs \<Rightarrow> 'n json option \<Rightarrow> 'n handler list option" where
  "signs_get signs k = (case k of Some (JString s) \<Rightarrow> signs s | _ \<Rightarrow> None)"

text \<open>
  The conversion of a parsed value to a string, as a template literal does it, returns
  or throws a \<open>TypeError\<close>. It returns on \<open>null\<close>, a boolean, a number and a string. An
  array is joined: its elements are converted in turn (\<open>null\<close> to the empty string).
  A plain object goes through \<open>toString\<close> and then \<open>valueOf\<close>: with no property
  \<open>toString\<close> of its own it is \<open>[object Object]\<close>; with one, which is a parsed value
  and no function, neither method gives a primitive and the conversion throws.
\<close>

fun stringifiable :: "'n json \<Rightarrow> bool" where
  "stringifiable (JArray xs) = list_all stringifiable xs"
| "stringifiable (JObject kvs) = (str ''toString'' \<notin> fst ` set kvs)"
| "stringifiable v = True"

text \<open>
  The argument of the first \<open>this.toast.log(...)\<close>, evaluated inside the \<open>try\<close> block:
  \<^verbatim>\<open>`...${sign}${data ? typeof data === 'string' ? `\t${data}`
      : Object.entries(data).map(val => `${val[0]}:\t|${val[1]}`).join('\r\n') : ''}`\<close>.
  It converts \<open>sign\<close> and, when \<open>data\<close> is an array or an object, each of its
  entries' values; on \<open>undefined\<close>, a falsy value, a string, \<open>true\<close> or a number for
  \<open>data\<close> there is nothing more to convert. \<open>log_argument\<close> tells whether the
  evaluation returns. The logger \<open>toast.log\<close> itself (of \<open>common.ts\<close>) is taken to
  return, as is the \<open>toast.log\<close> of the \<open>catch\<close> block, whose argument is built from
  strings.
\<close>

definition log_argument :: "'n json option \<Rightarrow> 'n json option \<Rightarrow> bool" where
  "log_argument sgn_v data =
     ((case sgn_v of None \<Rightarrow> True | Some v \<Rightarrow> stringifiable v)
      \<and> (case data of
           Some (JArray xs) \<Rightarrow> list_all stringifiable xs
         | Some (JObject kvs) \<Rightarrow> list_all stringifiable (map snd kvs)
         | _ \<Rightarrow> True))"

text \<open>
  The listener of \<open>text\<close> that \<open>SocketApp\<close> puts on every connection. Its \<open>try\<close> block
  holds \<open>JSON.parse(str)\<close>, the destructuring, the argument of the log line, the lookup
  \<open>this.signs.get(sign) || this.signs.get('unknow')\<close> and the run of the chain; its
  \<open>catch\<close> block runs the \<open>noJSON\<close> chain on the text. \<open>JSON_parse\<close> is the function
  of the runtime, \<open>None\<close> where it throws a \<open>SyntaxError\<close>.
\<close>

definition try_block ::
  "(js_string \<Rightarrow> 'n json option) \<Rightarrow> 'n signs \<Rightarrow> js_string \<Rightarrow> outcome \<times> 'n call list" where
  "try_block JSON_parse signs s =
     (case JSON_parse s of
        None \<Rightarrow> (Thrown, [])
      | Some v \<Rightarrow>
          (case destructure v of
             None \<Rightarrow> (Thrown, [])
           | Some (sgn_v, data) \<Rightarrow>
               if \<not> log_argument sgn_v data then (Thrown, [])
               else
                 (case (case signs_get signs sgn_v of
                          Some cbs \<Rightarrow> Some cbs
                        | None \<Rightarrow> signs (str ''unknow'')) of
                    None \<Rightarrow> (Returned, [])
                  | Some cbs \<Rightarrow> chain cbs (Data data) [])))"

definition catch_block ::
  "'n signs \<Rightarrow> js_string \<Rightarrow> 'n call list \<Rightarrow> outcome \<times> 'n call list" where
  "catch_block signs s tr =
     (case signs (str ''noJSON'') of
        None \<Rightarrow> (Returned, tr)
      | Some cbs \<Rightarrow> chain cbs (Raw s) tr)"

definition text_listener ::
  "(js_string \<Rightarrow> 'n json option) \<Rightarrow> 'n signs \<Rightarrow> js_string \<Rightarrow> outcome \<times> 'n call list" where
  "text_listener JSON_parse signs s =
     (case try_block JSON_parse signs s of
        (Returned, tr) \<Rightarrow> (Returned, tr)
      | (Thrown, tr) \<Rightarrow> catch_block signs s tr)"

section \<open>Properties\<close>

subsection \<open>What \<open>generateMetaData\<close> writes, \<open>extractFrame\<close> reads\<close>

lemma unat_of_nat_byte: "unat (of_nat n :: byte) = n mod 256"
  by (simp add: unat_of_nat)

lemma xor_mask_length [simp]: "length (xor_mask key p) = length p"
  by (simp add: xor_mask_def)

lemma xor_mask_twice: "xor_mask key (xor_mask key p) = p"
  by (rule nth_equalityI) (simp_all add: xor_mask_def xor.assoc)

lemma be16_write:
  "n < 65536 \<Longrightarrow> length pre = k \<Longrightarrow> be16 (pre @ writeUInt16BE n @ post) k = n"
  by (auto simp add: be16_def writeUInt16BE_def nth_append unat_of_nat_byte)

lemma be32_digits:
  fixes n :: nat
  assumes "n < 4294967296"
  shows "n div 16777216 mod 256 * 16777216 + n div 65536 mod 256 * 65536
         + n div 256 mod 256 * 256 + n mod 256 = n"
proof -
  have 1: "n mod 65536 = 256 * (n div 256 mod 256) + n mod 256"
    using mod_mult2_eq[of n 256 256] by simp
  have 2: "n mod 16777216 = 65536 * (n div 65536 mod 256) + n mod 65536"
    using mod_mult2_eq[of n 65536 256] by simp
  have 3: "n mod 4294967296 = 16777216 * (n div 16777216 mod 256) + n mod 16777216"
    using mod_mult2_eq[of n 16777216 256] by simp
  from assms have "n mod 4294967296 = n" by simp
  with 1 2 3 show ?thesis by linarith
qed

lemma be32_write:
  "n < 4294967296 \<Longrightarrow> length pre = k \<Longrightarrow> be32 (pre @ writeUInt32BE n @ post) k = n"
  using be32_digits[of n]
  by (auto simp add: be32_def writeUInt32BE_def nth_append unat_of_nat_byte)

text \<open>
  The two length fields \<open>generateMetaData\<close> writes for a payload of \<open>L\<close> bytes: the
  seven bits of the second byte, and the two or eight bytes after it.
\<close>

definition len7_of :: "nat \<Rightarrow> nat" where
  "len7_of L = (if L < 126 then L else if L < 65536 then 126 else 127)"

definition ext_len :: "nat \<Rightarrow> bytes" where
  "ext_len L =
     (if L < 126 then [] else if L < 65536 then writeUInt16BE L
      else writeUInt32BE (L div 2 ^ 32) @ writeUInt32BE (L mod 2 ^ 32))"

lemma generateMetaData_eq:
  "generateMetaData fin opcode masked payload r =
     ([of_nat ((if fin then 128 else 0) + opcode),
       of_nat ((if masked then 128 else 0) + len7_of (length payload))]
        @ ext_len (length payload) @ (if masked then map r [0..<4] else []),
      if masked then xor_mask (map r [0..<4]) payload else payload)"
  by (simp add: generateMetaData_def Let_def len7_of_def ext_len_def)

lemma length_ext_len:
  "length (ext_len L) = (if len7_of L = 126 then 2 else if len7_of L = 127 then 8 else 0)"
  by (simp add: ext_len_def len7_of_def writeUInt16BE_def writeUInt32BE_def)

lemma len7_of_lt: "len7_of L < 128"
  by (simp add: len7_of_def)

lemma payload_len_ext:
  assumes "L < 2 ^ 64"
  shows "(if len7_of L = 126 then be16 (b0 # b1 # ext_len L @ post) 2
          else if len7_of L = 127 then be32 (b0 # b1 # ext_len L @ post) 2 * 2 ^ 32
                                        + be32 (b0 # b1 # ext_len L @ post) 6
          else len7_of L) = L"
proof -
  consider "L < 126" | "126 \<le> L" "L < 65536" | "65536 \<le> L" by linarith
  then show ?thesis
  proof cases
    case 1
    then show ?thesis by (simp add: len7_of_def)
  next
    case 2
    then show ?thesis
      using be16_write[of L "[b0, b1]" 2 post] by (simp add: len7_of_def ext_len_def)
  next
    case 3
    have hi: "L div 2 ^ 32 < 4294967296" using assms by (simp add: less_mult_imp_div_less)
    have lo: "L mod 2 ^ 32 < 4294967296" by simp
    have a: "be32 (b0 # b1 # ext_len L @ post) 2 = L div 2 ^ 32"
      using 3 be32_write[OF hi, of "[b0, b1]" 2 "writeUInt32BE (L mod 2 ^ 32) @ post"]
      by (simp add: ext_len_def)
    have b: "be32 (b0 # b1 # ext_len L @ post) 6 = L mod 2 ^ 32"
      using 3 be32_write[OF lo, of "[b0, b1] @ writeUInt32BE (L div 2 ^ 32)" 6 post]
      by (simp add: ext_len_def writeUInt32BE_def)
    show ?thesis using 3 by (simp add: a b len7_of_def)
  qed
qed

lemma byte0_arith:
  fixes x :: nat
  assumes "x < 16"
  shows "(128 + x) div 16 = 8" "(128 + x) mod 16 = x"
  using div_mult_self4[of 16 8 x] mod_mult_self4[of 16 8 x] assms by simp_all

lemma byte1_arith:
  fixes y :: nat
  assumes "y < 128"
  shows "(128 + y) div 128 = 1" "(128 + y) mod 128 = y"
  using assms by simp_all

lemma len7_of_le: "len7_of L \<le> L"
  by (simp add: len7_of_def)

lemma decode_generateMetaData:
  assumes op: "valid_opcode opcode" and ctl: "\<not> (opcode \<ge> 8 \<and> \<not> fin)"
    and mv: "\<not> mask_violation impl srv masked" and len: "length payload < 2 ^ 64"
    and gm: "generateMetaData fin opcode masked payload r = (meta, payload')"
  shows "decodeFrame impl srv (meta @ payload' @ rest) = Some (Frame fin opcode payload rest)"
proof -
  define L where "L = length payload"
  define b0 :: byte where "b0 = of_nat ((if fin then 128 else 0) + opcode)"
  define b1 :: byte where "b1 = of_nat ((if masked then 128 else 0) + len7_of L)"
  define key where "key = map r [0..<4]"
  define m4 where "m4 = (if masked then key else [])"
  define post where "post = m4 @ payload' @ rest"
  define buf where "buf = b0 # b1 # ext_len L @ post"
  have meta: "meta = [b0, b1] @ ext_len L @ m4"
    and p': "payload' = (if masked then xor_mask key payload else payload)"
    using gm unfolding generateMetaData_eq by (auto simp: b0_def b1_def L_def key_def m4_def)
  have buf: "meta @ payload' @ rest = buf" by (simp add: meta buf_def post_def)
  have lkey: "length key = 4" by (simp add: key_def)
  have lp': "length payload' = L" by (simp add: p' L_def)
  have op16: "opcode < 16" using op by (auto simp: valid_opcode_def)
  have u0: "unat b0 = (if fin then 128 else 0) + opcode"
    unfolding b0_def unat_of_nat_byte using op16 by simp
  have u1: "unat b1 = (if masked then 128 else 0) + len7_of L"
    unfolding b1_def unat_of_nat_byte using len7_of_lt[of L] by simp
  note a0 = byte0_arith[OF op16] and a1 = byte1_arith[OF len7_of_lt[of L]]
  have fin: "hdr_fin buf = fin" using op16 by (simp add: hdr_fin_def buf_def u0 a0)
  have opc: "hdr_opcode buf = opcode" using op16 by (simp add: hdr_opcode_def buf_def u0 a0)
  have msk: "hdr_masked buf = masked"
    using len7_of_lt[of L] by (simp add: hdr_masked_def buf_def u1 a1)
  have l7: "hdr_len7 buf = len7_of L"
    using len7_of_lt[of L] by (simp add: hdr_len7_def buf_def u1 a1)
  have hs: "hdr_size buf = 2 + length (ext_len L) + length m4"
    by (simp add: hdr_size_def l7 msk length_ext_len m4_def lkey)
  have pl: "payload_len buf = L"
    unfolding payload_len_def l7 unfolding buf_def
    using payload_len_ext[of L b0 b1 post] len[folded L_def] by simp
  have fs: "frame_size buf = 2 + length (ext_len L) + length m4 + L"
    by (simp add: frame_size_def hs pl)
  have lbuf: "length buf = 2 + length (ext_len L) + length m4 + L + length rest"
    by (simp add: buf_def post_def lp')
  have rsv: "unat (buf ! 0) div 16 mod 8 = 0" using op16 by (simp add: buf_def u0 a0)
  have ok: "header_ok impl srv buf"
    using op ctl mv by (simp add: header_ok_def rsv opc fin msk)
  have early: "\<not> length buf < (if hdr_masked buf then 6 else 2) + hdr_len7 buf"
    unfolding lbuf msk l7 using len7_of_le[of L] by (simp add: m4_def lkey)
  have dropk: "drop (frame_size buf) buf = rest"
    unfolding fs by (simp add: buf_def post_def lp')
  have pay: "take L (drop (hdr_size buf) buf) = payload'"
    unfolding hs by (simp add: buf_def post_def lp')
  have keyb: "take 4 (drop (hdr_size buf - 4) buf) = key" if masked
    unfolding hs using that by (simp add: buf_def post_def m4_def lkey)
  have fp: "frame_payload buf = payload"
    unfolding frame_payload_def pl pay msk Let_def
    using keyb by (simp add: p' xor_mask_twice)
  have "decodeFrame impl srv buf = Some (Frame fin opcode payload rest)"
    unfolding decodeFrame_eq dropk fp fin opc
    using ok early lbuf by (simp add: fs)
  then show ?thesis by (simp only: buf)
qed

subsection \<open>No read of \<open>extractFrame\<close> leaves the buffer\<close>

lemma unat_byte: "unat (b :: byte) < 256"
  using unsigned_less[of b, where 'a = nat] by simp

lemma be16_bound: "be16 buf off < 65536"
  using unat_byte[of "buf ! off"] unat_byte[of "buf ! (off + 1)"] by (simp add: be16_def)

lemma createCloseFrame_Some:
  "code = None \<or> (\<exists>n. code = Some n \<and> 0 \<le> n \<and> n \<le> 65535) \<Longrightarrow>
   \<exists>f. createCloseFrame code reason masked r = Some f"
  by (auto simp: createCloseFrame_def Let_def split: prod.splits option.splits)

lemma processCloseFrame_total: "\<exists>c'. processCloseFrame impl payload c = Some c'"
proof (cases "2 \<le> length payload")
  case True
  have "\<exists>f. createCloseFrame (Some (int (be16 payload 0))) (Some (toString (drop 2 payload)))
            (masked_out impl c) (rnd c) = Some f"
    using be16_bound[of payload 0] by (intro createCloseFrame_Some) auto
  then obtain f where "createCloseFrame (Some (int (be16 payload 0)))
      (Some (toString (drop 2 payload))) (masked_out impl c) (rnd c) = Some f" ..
  with True show ?thesis
    by (simp add: processCloseFrame_def readUInt16BE_def slice_from_def)
next
  case False
  have "\<exists>f. createCloseFrame (Some 1005) (Some []) (masked_out impl c) (rnd c) = Some f"
    by (intro createCloseFrame_Some) auto
  then obtain f where
    "createCloseFrame (Some 1005) (Some []) (masked_out impl c) (rnd c) = Some f" ..
  with False show ?thesis
    by (simp add: processCloseFrame_def)
qed

lemma processFrame_total: "\<exists>ok c'. processFrame impl fin opcode payload c = Some (ok, c')"
proof -
  obtain c1 where c1: "processCloseFrame impl payload c = Some c1"
    using processCloseFrame_total by blast
  show ?thesis
    by (auto simp add: processFrame_def c1)
qed

text \<open>
  C10. \<open>extractFrame\<close> is total. In the model every access of the method to the buffer
  is checked (\<open>buffer[0]\<close>, \<open>buffer[1]\<close>, \<open>readUInt16BE(2)\<close>, \<open>readUInt32BE(2)\<close>,
  \<open>readUInt32BE(6)\<close>, the slices of the payload, of the mask key and of the rest) and
  is \<open>None\<close> outside the buffer. For every buffer, of either class and either role,
  the decoding is need-more-data, a protocol error or a frame, and \<open>extractFrame\<close>
  returns \<open>undefined\<close>, \<open>false\<close> or \<open>true\<close> with the connection it leaves.
\<close>

theorem extractFrame_total:
  "(\<exists>r. decodeFrame impl srv buf = Some r) \<and> (\<exists>r c'. extractFrame impl c = Some (r, c'))"
proof
  show "\<exists>r. decodeFrame impl srv buf = Some r"
    unfolding decodeFrame_eq by blast
next
  obtain r where r: "decodeFrame impl (server c) (buffer c) = Some r"
    unfolding decodeFrame_eq by blast
  show "\<exists>r c'. extractFrame impl c = Some (r, c')"
  proof (cases r)
    case (Frame fin opcode payload rest)
    obtain ok c' where
      "processFrame impl fin opcode payload (c\<lparr>buffer := rest\<rparr>) = Some (ok, c')"
      using processFrame_total by blast
    with r Frame show ?thesis by (simp add: extractFrame_def returned_def)
  qed (use r in \<open>simp_all add: extractFrame_def\<close>)
qed

subsection \<open>A masked binary frame, encoded and extracted\<close>

lemma mask_violation_server_masked: "\<not> mask_violation impl True True"
  by (simp add: mask_violation_def split: impl.split)

text \<open>
  C5. For every payload \<open>p\<close> (a Buffer, so shorter than \<open>2 ^ 53\<close> bytes) and every
  mask key, a server-role connection whose buffer holds exactly
  \<open>createBinaryFrame(p, true, true, true)\<close> decodes the frame with fin set, opcode 2
  and payload \<open>p\<close>, nothing left in the buffer, and \<open>extractFrame\<close> hands that
  frame to \<open>processFrame\<close>. And a connection whose buffer starts with a frame whose
  mask bit does not fit its role (a server an unmasked frame, a client of the library
  a masked one) returns \<open>false\<close>, the protocol error, and changes nothing.
\<close>

theorem masked_binary_roundtrip:
  assumes "length p < 2 ^ 53" and "server c" and "buffer c = createBinaryFrame p True True True r"
  shows "decodeFrame impl (server c) (buffer c) = Some (Frame True 2 p [])
         \<and> extractFrame impl c = returned (processFrame impl True 2 p (c\<lparr>buffer := []\<rparr>))
         \<and> (2 \<le> length (buffer d) \<and> hdr_masked (buffer d) \<noteq> server d
              \<and> (impl = App \<longrightarrow> server d)
             \<longrightarrow> extractFrame impl d = Some (Some False, d))"
proof -
  obtain meta payload' where gm: "generateMetaData True 2 True p r = (meta, payload')"
    by (cases "generateMetaData True 2 True p r")
  have len: "length p < 2 ^ 64" using assms(1) by simp
  have buf: "buffer c = meta @ payload' @ []"
    using assms(3) gm by (simp add: createBinaryFrame_def)
  have d: "decodeFrame impl True (meta @ payload' @ []) = Some (Frame True 2 p [])"
    by (rule decode_generateMetaData[OF _ _ mask_violation_server_masked len gm])
       (simp_all add: valid_opcode_def)
  have 1: "decodeFrame impl (server c) (buffer c) = Some (Frame True 2 p [])"
    using d assms(2) buf by simp
  have 2: "extractFrame impl c = returned (processFrame impl True 2 p (c\<lparr>buffer := []\<rparr>))"
    by (simp add: extractFrame_def 1)
  have 3: "extractFrame impl d = Some (Some False, d)"
    if "2 \<le> length (buffer d)" "hdr_masked (buffer d) \<noteq> server d" "impl = App \<longrightarrow> server d"
  proof -
    have "mask_violation impl (server d) (hdr_masked (buffer d))"
      using that by (cases impl) (auto simp: mask_violation_def)
    then have "\<not> header_ok impl (server d) (buffer d)" by (simp add: header_ok_def)
    with that(1) show ?thesis by (simp add: extractFrame_eq)
  qed
  from 1 2 3 show ?thesis by blast
qed

text \<open>
  The payload \<open>01 02 03\<close> under the key \<open>07 07 07 07\<close> on a server of the library, and
  the unmasked frame \<open>82 03 01 02 03\<close> on the same server.
\<close>

theorem masked_binary_roundtrip_witness:
  "length [1, 2, 3 :: byte] < 2 ^ 53
   \<and> server ((constructor Lib True (\<lambda>i. 7))\<lparr>readyState := OPEN,
         buffer := createBinaryFrame [1, 2, 3] True True True (\<lambda>i. 7)\<rparr>)
   \<and> decodeFrame Lib True (createBinaryFrame [1, 2, 3] True True True (\<lambda>i. 7))
       = Some (Frame True 2 [1, 2, 3] [])
   \<and> extractFrame Lib ((constructor Lib True (\<lambda>i. 7))\<lparr>readyState := OPEN,
         buffer := [0x82, 3, 1, 2, 3]\<rparr>)
       = Some (Some False, (constructor Lib True (\<lambda>i. 7))\<lparr>readyState := OPEN,
         buffer := [0x82, 3, 1, 2, 3]\<rparr>)"
  using masked_binary_roundtrip[of "[1, 2, 3]"
      "(constructor Lib True (\<lambda>i. 7))\<lparr>readyState := OPEN,
         buffer := createBinaryFrame [1, 2, 3] True True True (\<lambda>i. 7)\<rparr>" "\<lambda>i. 7" Lib
      "(constructor Lib True (\<lambda>i. 7))\<lparr>readyState := OPEN, buffer := [0x82, 3, 1, 2, 3]\<rparr>"]
  by (simp add: constructor_def hdr_masked_def)

subsection \<open>Need-more-data\<close>

text \<open>
  The buffer holds all bytes of a frame, as RFC 6455 lays them out: the two header
  bytes, the extended length, the mask key if the mask bit is set, and the payload.
\<close>

definition frame_complete :: "bytes \<Rightarrow> bool" where
  "frame_complete buf = (2 \<le> length buf \<and> frame_size buf \<le> length buf)"

text \<open>
  The length is encoded in the fewest bytes, as RFC 6455 demands of a sender and as
  \<open>generateMetaData\<close> does: 126 only for a length of 126 or more, 127 only for one of
  65536 or more.
\<close>

definition minimal_length :: "bytes \<Rightarrow> bool" where
  "minimal_length buf =
     ((hdr_len7 buf = 126 \<longrightarrow> 126 \<le> payload_len buf)
      \<and> (hdr_len7 buf = 127 \<longrightarrow> 65536 \<le> payload_len buf))"

text \<open>
  C4 as stated fails. A server holds the eight bytes \<open>81 FE 00 00 01 02 03 04\<close>: a
  final text frame, masked, 7-bit length 126, extended length 0, the mask key, no
  payload. All bytes of the frame are there, and \<open>extractFrame\<close> returns
  \<open>undefined\<close>: its first test of the length, before it reads the extended length,
  asks for the header and 126 more bytes.
\<close>

theorem need_more_data_counterexample:
  "frame_complete [0x81, 0xFE, 0, 0, 1, 2, 3, 4]
   \<and> extractFrame Lib ((constructor Lib True (\<lambda>i. 0))\<lparr>readyState := OPEN,
        buffer := [0x81, 0xFE, 0, 0, 1, 2, 3, 4]\<rparr>)
     = Some (None, (constructor Lib True (\<lambda>i. 0))\<lparr>readyState := OPEN,
        buffer := [0x81, 0xFE, 0, 0, 1, 2, 3, 4]\<rparr>)"
  by (simp add: frame_complete_def frame_size_def hdr_size_def payload_len_def hdr_len7_def
      hdr_masked_def be16_def extractFrame_eq header_ok_def hdr_opcode_def hdr_fin_def
      valid_opcode_def mask_violation_def constructor_def)

text \<open>
  C4, amended. \<open>extractFrame\<close> returns need-more-data only when the buffer does not
  hold all bytes of one frame whose length is minimally encoded, and then it leaves
  the connection as it was. When the buffer holds all bytes of a frame that passes the
  tests of the header and whose length is minimally encoded, \<open>extractFrame\<close> takes
  exactly the bytes of that frame off the buffer and calls \<open>processFrame\<close> with its
  fin bit, its opcode and its unmasked payload.
\<close>

theorem extractFrame_need_more_data:
  "(extractFrame impl c = Some (None, c') \<longrightarrow>
      c' = c \<and> \<not> (frame_complete (buffer c) \<and> minimal_length (buffer c)))
   \<and> (frame_complete (buffer c) \<and> minimal_length (buffer c)
        \<and> header_ok impl (server c) (buffer c) \<longrightarrow>
      extractFrame impl c =
        returned (processFrame impl (hdr_fin (buffer c)) (hdr_opcode (buffer c))
          (frame_payload (buffer c)) (c\<lparr>buffer := drop (frame_size (buffer c)) (buffer c)\<rparr>)))"
proof (intro conjI impI)
  assume n: "extractFrame impl c = Some (None, c')"
  obtain ok c'' where p: "processFrame impl (hdr_fin (buffer c)) (hdr_opcode (buffer c))
      (frame_payload (buffer c)) (c\<lparr>buffer := drop (frame_size (buffer c)) (buffer c)\<rparr>)
        = Some (ok, c'')"
    using processFrame_total by blast
  from n show "c' = c"
    by (auto simp: extractFrame_eq p returned_def split: if_splits)
  from n have "length (buffer c) < 2
      \<or> length (buffer c) < (if hdr_masked (buffer c) then 6 else 2) + hdr_len7 (buffer c)
      \<or> length (buffer c) < frame_size (buffer c)"
    by (auto simp: extractFrame_eq p returned_def split: if_splits)
  then show "\<not> (frame_complete (buffer c) \<and> minimal_length (buffer c))"
    by (auto simp: frame_complete_def minimal_length_def frame_size_def hdr_size_def
        payload_len_def split: if_splits)
next
  assume a: "frame_complete (buffer c) \<and> minimal_length (buffer c)
        \<and> header_ok impl (server c) (buffer c)"
  then have "\<not> length (buffer c) < (if hdr_masked (buffer c) then 6 else 2) + hdr_len7 (buffer c)"
    by (auto simp: frame_complete_def minimal_length_def frame_size_def hdr_size_def
        payload_len_def split: if_splits)
  with a show "extractFrame impl c =
        returned (processFrame impl (hdr_fin (buffer c)) (hdr_opcode (buffer c))
          (frame_payload (buffer c)) (c\<lparr>buffer := drop (frame_size (buffer c)) (buffer c)\<rparr>))"
    by (simp add: extractFrame_eq frame_complete_def)
qed

lemma hdr_Cons:
  "hdr_len7 (b0 # b1 # bs) = unat b1 mod 128"
  "hdr_masked (b0 # b1 # bs) = (unat b1 div 128 \<noteq> 0)"
  "hdr_opcode (b0 # bs) = unat b0 mod 16"
  "hdr_fin (b0 # bs) = (unat b0 div 16 = 8)"
  by (simp_all add: hdr_len7_def hdr_masked_def hdr_opcode_def hdr_fin_def)

text \<open>
  An \<open>AppConnection\<close> with the first four bytes of the masked text frame \<open>Hello\<close>, and
  with all eleven.
\<close>

theorem extractFrame_need_more_data_witness:
  "extractFrame App ((constructor App True (\<lambda>i. 0))\<lparr>readyState := OPEN,
        buffer := [0x81, 0x85, 1, 2]\<rparr>)
     = Some (None, (constructor App True (\<lambda>i. 0))\<lparr>readyState := OPEN,
        buffer := [0x81, 0x85, 1, 2]\<rparr>)
   \<and> \<not> (frame_complete [0x81, 0x85, 1, 2] \<and> minimal_length [0x81, 0x85, 1, 2])
   \<and> frame_complete [0x81, 0x85, 1, 2, 3, 4, 0x49, 0x67, 0x6F, 0x68, 0x6E]
   \<and> minimal_length [0x81, 0x85, 1, 2, 3, 4, 0x49, 0x67, 0x6F, 0x68, 0x6E]
   \<and> header_ok App True [0x81, 0x85, 1, 2, 3, 4, 0x49, 0x67, 0x6F, 0x68, 0x6E]
   \<and> extractFrame App ((constructor App True (\<lambda>i. 0))\<lparr>readyState := OPEN,
          buffer := [0x81, 0x85, 1, 2, 3, 4, 0x49, 0x67, 0x6F, 0x68, 0x6E]\<rparr>)
       = returned (processFrame App True 1 [0x48, 0x65, 0x6C, 0x6C, 0x6F]
            ((constructor App True (\<lambda>i. 0))\<lparr>readyState := OPEN, buffer := []\<rparr>))"
  using extractFrame_need_more_data[of App
      "(constructor App True (\<lambda>i. 0))\<lparr>readyState := OPEN, buffer := [0x81, 0x85, 1, 2]\<rparr>"
      "(constructor App True (\<lambda>i. 0))\<lparr>readyState := OPEN, buffer := [0x81, 0x85, 1, 2]\<rparr>"]
    extractFrame_need_more_data[of App
      "(constructor App True (\<lambda>i. 0))\<lparr>readyState := OPEN,
          buffer := [0x81, 0x85, 1, 2, 3, 4, 0x49, 0x67, 0x6F, 0x68, 0x6E]\<rparr>"]
  by (simp add: constructor_def extractFrame_eq frame_complete_def minimal_length_def
      header_ok_def hdr_Cons frame_size_def hdr_size_def payload_len_def valid_opcode_def
      mask_violation_def frame_payload_def xor_mask_def)

subsection \<open>Data frames and the assembly slot\<close>

lemma toString_Nil [simp]: "toString [] = []"
  by (simp add: toString_def)

lemma Buffer_from_Nil [simp]: "Buffer_from [] = []"
  by (simp add: Buffer_from_def)

lemma Buffer_from_dashes: "Buffer_from (str ''--'' @ r) = [0x2D, 0x2D] @ Buffer_from r"
  by (cases r) (simp_all add: Buffer_from_def str_def utf8_bytes_def is_high_def is_low_def)

lemma createCloseFrame_code:
  "0 < n \<Longrightarrow> n \<le> 65535 \<Longrightarrow> n \<noteq> 1005 \<Longrightarrow>
   createCloseFrame (Some n) reason masked r =
     Some (fst (generateMetaData True 8 masked
                  (writeUInt16BE (nat n) @ Buffer_from (case reason of None \<Rightarrow> [] | Some x \<Rightarrow> x)) r)
           @ snd (generateMetaData True 8 masked
                  (writeUInt16BE (nat n) @ Buffer_from (case reason of None \<Rightarrow> [] | Some x \<Rightarrow> x)) r))"
  by (simp add: createCloseFrame_def Buffer_from_dashes Let_def split: prod.split)

text \<open>
  C1 fails in class \<open>Connection\<close>. Its slot is \<open>undefined\<close> when no message is in
  progress, and \<open>processFrame\<close> tests it with \<open>!== null\<close>, which \<open>undefined\<close>
  passes: every text frame on an open connection fresh from its constructor is
  answered with \<open>false\<close> and no \<open>text\<close> event. A server of the library that reads
  the masked text frame \<open>Hello\<close> (\<open>81 85 01 02 03 04 49 67 6F 68 6E\<close>) sends the close
  frame \<open>88 02 03 EA\<close> and emits \<open>close(1002)\<close>.
\<close>

theorem Connection_rejects_text_frame:
  "processFrame Lib fin 1 p ((constructor Lib srv ent)\<lparr>readyState := OPEN\<rparr>)
     = Some (False, (constructor Lib srv ent)\<lparr>readyState := OPEN\<rparr>)
   \<and> doRead Lib 2097152 hs (Some [0x81, 0x85, 1, 2, 3, 4, 0x49, 0x67, 0x6F, 0x68, 0x6E])
        ((constructor Lib True ent)\<lparr>readyState := OPEN\<rparr>)
     = Some ((constructor Lib True ent)\<lparr>readyState := CLOSING,
          trace := [SocketWrite [0x88, 2, 3, 0xEA], Emit_close (Some 1002) None]\<rparr>)"
proof
  show "processFrame Lib fin 1 p ((constructor Lib srv ent)\<lparr>readyState := OPEN\<rparr>)
     = Some (False, (constructor Lib srv ent)\<lparr>readyState := OPEN\<rparr>)"
    by (simp add: processFrame_def constructor_def no_assembly_def empty_slot_def)
next
  let ?c = "(constructor Lib True ent)\<lparr>readyState := OPEN\<rparr>"
  let ?buf = "[0x81, 0x85, 1, 2, 3, 4, 0x49, 0x67, 0x6F, 0x68, 0x6E] :: bytes"
  have e: "extractFrame Lib (?c\<lparr>buffer := ?buf\<rparr>) = Some (Some False, ?c)"
    by (simp add: extractFrame_eq constructor_def header_ok_def hdr_Cons frame_size_def
      hdr_size_def payload_len_def valid_opcode_def mask_violation_def returned_def
      processFrame_def no_assembly_def empty_slot_def)
  have l: "extract_loop Lib (?c\<lparr>buffer := ?buf\<rparr>) = Some (Some False, ?c)"
    by (subst extract_loop.simps) (simp add: e)
  have cl: "close Lib (Some 1002) None ?c = Some (?c\<lparr>readyState := CLOSING,
          trace := [SocketWrite [0x88, 2, 3, 0xEA], Emit_close (Some 1002) None]\<rparr>)"
    by (simp add: close_def constructor_def createCloseFrame_code masked_out_def
        generateMetaData_def writeUInt16BE_def socket_write_def emit_def)
  have "?c\<lparr>buffer := buffer ?c @ ?buf\<rparr> = ?c\<lparr>buffer := ?buf\<rparr>"
    by (simp add: constructor_def)
  then show "doRead Lib 2097152 hs (Some ?buf) ?c
     = Some ((constructor Lib True ent)\<lparr>readyState := CLOSING,
          trace := [SocketWrite [0x88, 2, 3, 0xEA], Emit_close (Some 1002) None]\<rparr>)"
    by (simp add: doRead_def handshake_gate_def l cl)
qed

text \<open>
  Class \<open>AppConnection\<close> does what C1 says. With the slot empty (the empty string) a
  final text frame emits \<open>text\<close> with the decoded payload and leaves the slot empty;
  a text frame that is not final stores the decoded payload and emits nothing; a
  continuation frame on a partial string appends to it, and emits the whole when it is
  final.
\<close>

lemma AppConnection_text_frame:
  assumes "readyState c = OPEN" and "frameBuffer c = FB_string []"
  shows "processFrame App True 1 p c
           = Some (True, c\<lparr>trace := trace c @ [Emit_text (toString p)],
                            frameBuffer := FB_string []\<rparr>)"
    and "processFrame App False 1 p c = Some (True, c\<lparr>frameBuffer := FB_string (toString p)\<rparr>)"
  using assms
  by (simp_all add: processFrame_def no_assembly_def truthy_def assemble_def emit_def
      empty_slot_def)

lemma AppConnection_text_continuation:
  assumes "readyState c = OPEN" and "frameBuffer c = FB_string s" and "s \<noteq> []"
  shows "processFrame App True 0 p c
           = Some (True, c\<lparr>trace := trace c @ [Emit_text (s @ toString p)],
                            frameBuffer := FB_string []\<rparr>)"
    and "processFrame App False 0 p c
           = Some (True, c\<lparr>frameBuffer := FB_string (s @ toString p)\<rparr>)"
  using assms
  by (simp_all add: processFrame_def no_assembly_def truthy_def assemble_def emit_def
      empty_slot_def)

text \<open>
  C2 fails in class \<open>Connection\<close>, by the same comparison with \<open>null\<close>: the test for an
  unexpected continuation frame, \<open>opcode === 0 && this.frameBuffer === null\<close>, is never
  true. A continuation frame on an open connection fresh from its constructor starts a
  binary message: \<open>binary\<close> is emitted, the payload goes to the stream, and the
  connection stays open. A server of the library that reads the masked continuation
  frame \<open>80 81 01 02 03 04 49\<close> does not close.
\<close>

theorem Connection_accepts_first_continuation:
  "processFrame Lib True 0 p ((constructor Lib srv ent)\<lparr>readyState := OPEN\<rparr>)
     = Some (True, (constructor Lib srv ent)\<lparr>readyState := OPEN,
          trace := [Emit_binary, InStream_addData p, InStream_end]\<rparr>)
   \<and> doRead Lib 2097152 hs (Some [0x80, 0x81, 1, 2, 3, 4, 0x49])
        ((constructor Lib True ent)\<lparr>readyState := OPEN\<rparr>)
     = Some ((constructor Lib True ent)\<lparr>readyState := OPEN,
          trace := [Emit_binary, InStream_addData [0x48], InStream_end]\<rparr>)"
proof
  show "processFrame Lib True 0 p ((constructor Lib srv ent)\<lparr>readyState := OPEN\<rparr>)
     = Some (True, (constructor Lib srv ent)\<lparr>readyState := OPEN,
          trace := [Emit_binary, InStream_addData p, InStream_end]\<rparr>)"
    by (simp add: processFrame_def constructor_def no_assembly_def empty_slot_def assemble_def
        truthy_def emit_def)
next
  let ?c = "(constructor Lib True ent)\<lparr>readyState := OPEN\<rparr>"
  let ?c' = "(constructor Lib True ent)\<lparr>readyState := OPEN,
          trace := [Emit_binary, InStream_addData [0x48], InStream_end]\<rparr>"
  let ?buf = "[0x80, 0x81, 1, 2, 3, 4, 0x49] :: bytes"
  have e: "extractFrame Lib (?c\<lparr>buffer := ?buf\<rparr>) = Some (Some True, ?c')"
    by (simp add: extractFrame_eq constructor_def header_ok_def hdr_Cons frame_size_def
      hdr_size_def payload_len_def valid_opcode_def mask_violation_def returned_def
      processFrame_def no_assembly_def empty_slot_def frame_payload_def xor_mask_def
      assemble_def truthy_def emit_def)
  have e': "extractFrame Lib ?c' = Some (None, ?c')"
    by (simp add: extractFrame_eq constructor_def)
  have l: "extract_loop Lib (?c\<lparr>buffer := ?buf\<rparr>) = Some (None, ?c')"
    by (subst extract_loop.simps, simp add: e, subst extract_loop.simps, simp add: e')
  have "?c\<lparr>buffer := buffer ?c @ ?buf\<rparr> = ?c\<lparr>buffer := ?buf\<rparr>"
    by (simp add: constructor_def)
  then show "doRead Lib 2097152 hs (Some ?buf) ?c = Some ?c'"
    by (simp add: doRead_def handshake_gate_def l) (simp add: constructor_def)
qed

text \<open>
  Class \<open>AppConnection\<close> does what C2 says: with the slot empty \<open>processFrame\<close> answers
  a continuation frame with \<open>false\<close> and emits nothing.
\<close>

lemma AppConnection_first_continuation:
  assumes "readyState c = OPEN" and "frameBuffer c = FB_string []"
  shows "processFrame App fin 0 p c = Some (False, c)"
  using assms by (simp add: processFrame_def no_assembly_def truthy_def)

subsection \<open>The default subprotocol selector returns keys\<close>

text \<open>
  C3 fails. The client offers \<open>chat\<close> and \<open>superchat\<close>. With \<open>validProtocols\<close>
  \<open>["superchat"]\<close> the selector returns \<open>undefined\<close>, where the first offered protocol
  of the allow-list is \<open>superchat\<close>; with \<open>["chat", "1"]\<close> it returns \<open>"1"\<close>, the key of
  the second offer, which the client never offered.
\<close>

theorem default_selector_returns_keys:
  "buildSelectProtocol [str ''superchat''] (Some [str ''chat'', str ''superchat'']) = None
   \<and> buildSelectProtocol [str ''chat'', str ''1''] (Some [str ''chat'', str ''superchat''])
       = Some (str ''1'')"
  by code_simp

subsection \<open>UTF-8 decoded and encoded again\<close>

text \<open>
  The Unicode scalar values, and the UTF-8 encoding of a sequence of them: the
  well-formed UTF-8 byte sequences.
\<close>

definition scalar :: "nat \<Rightarrow> bool" where
  "scalar cp = (cp < 0xD800 \<or> (0xE000 \<le> cp \<and> cp < 0x110000))"

definition utf8 :: "nat list \<Rightarrow> bytes" where
  "utf8 cps = concat (map utf8_bytes cps)"

lemma utf8_decode_0: "utf8_decode 0 lo hi x bs = utf8_decode 0 0x80 0xBF 0 bs"
  by (cases bs) simp_all

lemma utf8_decode_numeral:
  "utf8_decode 1 = utf8_decode (Suc 0)"
  "utf8_decode 2 = utf8_decode (Suc (Suc 0))"
  "utf8_decode 3 = utf8_decode (Suc (Suc (Suc 0)))"
  by (simp_all add: numeral_2_eq_2 numeral_3_eq_3)

lemma lead_mod:
  fixes a :: nat
  shows "a < 32 \<Longrightarrow> (192 + a) mod 32 = a"
    and "a < 16 \<Longrightarrow> (224 + a) mod 16 = a"
    and "a < 8 \<Longrightarrow> (240 + a) mod 8 = a"
    and "a < 64 \<Longrightarrow> (128 + a) mod 64 = a"
  using mod_mult_self4[of 32 6 a] mod_mult_self4[of 16 14 a] mod_mult_self4[of 8 30 a]
    mod_mult_self4[of 64 2 a]
  by simp_all

lemma decode1:
  assumes "unat B0 = a" "a < 128"
  shows "utf8_decode 0 lo hi x (B0 # rest) = a # utf8_decode 0 0x80 0xBF 0 rest"
  using assms by simp

lemma decode2:
  assumes "unat B0 = 192 + a" "unat B1 = 128 + b" "2 \<le> a" "a < 32" "b < 64"
  shows "utf8_decode 0 lo hi x (B0 # B1 # rest) = (a * 64 + b) # utf8_decode 0 0x80 0xBF 0 rest"
  using assms by (simp add: utf8_decode_numeral lead_mod)

lemma decode3:
  assumes "unat B0 = 224 + a" "unat B1 = 128 + b" "unat B2 = 128 + c"
    "a < 16" "b < 64" "c < 64" "a = 0 \<longrightarrow> 32 \<le> b" "a = 13 \<longrightarrow> b < 32"
  shows "utf8_decode 0 lo hi x (B0 # B1 # B2 # rest)
         = (a * 4096 + b * 64 + c) # utf8_decode 0 0x80 0xBF 0 rest"
  using assms by (auto simp add: utf8_decode_numeral lead_mod add_mult_distrib)

lemma decode4:
  assumes "unat B0 = 240 + a" "unat B1 = 128 + b" "unat B2 = 128 + c" "unat B3 = 128 + d"
    "a < 5" "b < 64" "c < 64" "d < 64" "a = 0 \<longrightarrow> 16 \<le> b" "a = 4 \<longrightarrow> b < 16"
  shows "utf8_decode 0 lo hi x (B0 # B1 # B2 # B3 # rest)
         = (a * 262144 + b * 4096 + c * 64 + d) # utf8_decode 0 0x80 0xBF 0 rest"
  using assms by (auto simp add: utf8_decode_numeral lead_mod add_mult_distrib)

lemma unat_of_nat_byte_less: "n < 256 \<Longrightarrow> unat (of_nat n :: byte) = n"
  by (simp add: unat_of_nat)

lemma digits64:
  fixes n :: nat
  shows "n = n div 64 * 64 + n mod 64" and "n mod 64 < 64"
  by simp_all

lemma decode_utf8_bytes:
  assumes "scalar cp"
  shows "utf8_decode 0 lo hi x (utf8_bytes cp @ rest) = cp # utf8_decode 0 0x80 0xBF 0 rest"
proof -
  define q1 where "q1 = cp div 64"
  define d where "d = cp mod 64"
  define q2 where "q2 = q1 div 64"
  define c where "c = q1 mod 64"
  define q3 where "q3 = q2 div 64"
  define b where "b = q2 mod 64"
  have e1: "cp = q1 * 64 + d" and ld: "d < 64" by (simp_all add: q1_def d_def)
  have e2: "q1 = q2 * 64 + c" and lc: "c < 64" by (simp_all add: q2_def c_def)
  have e3: "q2 = q3 * 64 + b" and lb: "b < 64" by (simp_all add: q3_def b_def)
  have d2: "cp div 4096 = q2" using div_mult2_eq[of cp 64 64] by (simp add: q2_def q1_def)
  have d3: "cp div 262144 = q3" using div_mult2_eq[of cp 4096 64] by (simp add: q3_def d2)
  have m2: "cp div 64 mod 64 = c" by (simp add: c_def q1_def)
  have m3: "cp div 4096 mod 64 = b" by (simp add: b_def d2)
  consider "cp < 128" | "128 \<le> cp" "cp < 2048" | "2048 \<le> cp" "cp < 65536" | "65536 \<le> cp"
    by linarith
  then show ?thesis
  proof cases
    case 1
    then show ?thesis
      by (simp add: utf8_bytes_def unat_of_nat_byte_less del: utf8_decode.simps)
         (rule decode1, simp_all add: unat_of_nat)
  next
    case 2
    have a: "2 \<le> q1" "q1 < 32" using 2 e1 ld by linarith+
    have u0: "unat (of_nat (192 + q1) :: byte) = 192 + q1"
      unfolding unat_of_nat_byte using a by simp
    have u1: "unat (of_nat (128 + d) :: byte) = 128 + d"
      unfolding unat_of_nat_byte using ld by simp
    have "utf8_bytes cp = [of_nat (192 + q1), of_nat (128 + d)]"
      using 2 by (simp add: utf8_bytes_def q1_def d_def)
    then show ?thesis
      using decode2[OF u0 u1 a ld, of lo hi x rest] e1 by simp
  next
    case 3
    have a: "q2 < 16" using 3 e1 e2 by linarith
    have a0: "q2 = 0 \<longrightarrow> 32 \<le> c" using 3 e1 e2 ld by linarith
    have a13: "q2 = 13 \<longrightarrow> c < 32"
      using 3 e1 e2 ld lc assms unfolding scalar_def by auto
    have u0: "unat (of_nat (224 + q2) :: byte) = 224 + q2"
      unfolding unat_of_nat_byte using a by simp
    have u1: "unat (of_nat (128 + c) :: byte) = 128 + c"
      unfolding unat_of_nat_byte using lc by simp
    have u2: "unat (of_nat (128 + d) :: byte) = 128 + d"
      unfolding unat_of_nat_byte using ld by simp
    have "utf8_bytes cp = [of_nat (224 + q2), of_nat (128 + c), of_nat (128 + d)]"
      using 3 by (simp add: utf8_bytes_def d2 m2 d_def)
    moreover have "q2 * 4096 + c * 64 + d = cp" using e1 e2 by simp
    ultimately show ?thesis
      using decode3[OF u0 u1 u2 a lc ld a0 a13, of lo hi x rest] by simp
  next
    case 4
    have hi: "cp < 1114112" using 4 assms unfolding scalar_def by linarith
    have a: "q3 < 5" using hi e1 e2 e3 by linarith
    have a0: "q3 = 0 \<longrightarrow> 16 \<le> b" using 4 e1 e2 e3 lc ld by linarith
    have a4: "q3 = 4 \<longrightarrow> b < 16" using hi e1 e2 e3 by linarith
    have u0: "unat (of_nat (240 + q3) :: byte) = 240 + q3"
      unfolding unat_of_nat_byte using a by simp
    have u1: "unat (of_nat (128 + b) :: byte) = 128 + b"
      unfolding unat_of_nat_byte using lb by simp
    have u2: "unat (of_nat (128 + c) :: byte) = 128 + c"
      unfolding unat_of_nat_byte using lc by simp
    have u3: "unat (of_nat (128 + d) :: byte) = 128 + d"
      unfolding unat_of_nat_byte using ld by simp
    have "utf8_bytes cp
            = [of_nat (240 + q3), of_nat (128 + b), of_nat (128 + c), of_nat (128 + d)]"
      using 4 by (simp add: utf8_bytes_def d3 m3 m2 d_def)
    moreover have "q3 * 262144 + b * 4096 + c * 64 + d = cp" using e1 e2 e3 by simp
    ultimately show ?thesis
      using decode4[OF u0 u1 u2 u3 a lb lc ld a0 a4, of lo hi x rest] by simp
  qed
qed

lemma unat_of_nat_u16: "n < 65536 \<Longrightarrow> unat (of_nat n :: 16 word) = n"
  by (simp add: unat_of_nat)

lemma utf16_decode_bmp:
  "\<not> is_high u \<Longrightarrow> \<not> is_low u \<Longrightarrow> utf16_decode (u # us) = unat u # utf16_decode us"
  by (cases us) simp_all

lemma utf16_decode_units:
  assumes "scalar cp"
  shows "utf16_decode (utf16_units cp @ rest) = cp # utf16_decode rest"
proof (cases "cp < 65536")
  case True
  then have u: "unat (of_nat cp :: 16 word) = cp" by (rule unat_of_nat_u16)
  have "\<not> is_high (of_nat cp)" "\<not> is_low (of_nat cp)"
    using assms True unfolding is_high_def is_low_def u scalar_def by auto
  then show ?thesis using True u by (simp add: utf16_units_def utf16_decode_bmp)
next
  case False
  define m where "m = cp - 65536"
  define q where "q = m div 1024"
  define r where "r = m mod 1024"
  have m: "m = q * 1024 + r" and lr: "r < 1024" by (simp_all add: q_def r_def)
  have cp: "cp = 65536 + m" using False by (simp add: m_def)
  have "cp < 1114112" using False assms unfolding scalar_def by linarith
  then have lq: "q < 1024" using cp m by linarith
  have uh: "unat (of_nat (55296 + q) :: 16 word) = 55296 + q"
    unfolding unat_of_nat using lq by simp
  have ul: "unat (of_nat (56320 + r) :: 16 word) = 56320 + r"
    unfolding unat_of_nat using lr by simp
  have h: "is_high (of_nat (55296 + q))" unfolding is_high_def uh using lq by simp
  have l: "is_low (of_nat (56320 + r))" unfolding is_low_def ul using lr by simp
  have "utf16_units cp = [of_nat (55296 + q), of_nat (56320 + r)]"
    using False by (simp add: utf16_units_def q_def r_def m_def)
  moreover have "utf16_decode (of_nat (55296 + q) # of_nat (56320 + r) # rest)
                 = (65536 + (unat (of_nat (55296 + q) :: 16 word) - 55296) * 1024
                      + (unat (of_nat (56320 + r) :: 16 word) - 56320)) # utf16_decode rest"
    using h l by (simp del: of_nat_add)
  ultimately show ?thesis unfolding uh ul using cp m by simp
qed

lemma toString_utf8:
  "list_all scalar cps \<Longrightarrow>
   toString (utf8 cps @ rest) = concat (map utf16_units cps) @ toString rest"
  unfolding toString_def utf8_def
  by (induction cps) (simp_all add: decode_utf8_bytes del: utf8_decode.simps)

lemma utf16_decode_concat:
  "list_all scalar cps \<Longrightarrow> utf16_decode (concat (map utf16_units cps)) = cps"
  by (induction cps) (simp_all add: utf16_decode_units)

text \<open>Decoding well-formed UTF-8 and encoding it again gives the same bytes.\<close>

lemma utf8_roundtrip: "list_all scalar cps \<Longrightarrow> Buffer_from (toString (utf8 cps)) = utf8 cps"
  using toString_utf8[of cps "[]"]
  by (simp add: Buffer_from_def utf16_decode_concat toString_def) (simp add: utf8_def)

subsection \<open>Ping and pong\<close>

text \<open>
  C6 as stated fails. An open \<open>AppConnection\<close> gets a ping with the one payload byte
  \<open>FF\<close>, which is not UTF-8. \<open>processFrame\<close> writes
  \<open>createPongFrame(payload.toString())\<close>: the decoded string is U+FFFD, and the pong
  frame \<open>8A 03 EF BF BD\<close> carries three payload bytes, not the one of the ping.
\<close>

theorem pong_payload_counterexample:
  "processFrame App True 9 [0xFF] ((constructor App True (\<lambda>i. 0))\<lparr>readyState := OPEN\<rparr>)
     = Some (True, (constructor App True (\<lambda>i. 0))\<lparr>readyState := OPEN,
          trace := [SocketWrite [0x8A, 3, 0xEF, 0xBF, 0xBD]]\<rparr>)
   \<and> decodeFrame Lib False [0x8A, 3, 0xEF, 0xBF, 0xBD]
       = Some (Frame True 10 [0xEF, 0xBF, 0xBD] [])
   \<and> [0xEF, 0xBF, 0xBD] \<noteq> [0xFF :: byte]"
proof -
  have t: "toString [0xFF] = [0xFFFD]"
    by (simp add: toString_def utf16_units_def)
  have b: "Buffer_from [0xFFFD] = [0xEF, 0xBF, 0xBD]"
    by (simp add: Buffer_from_def is_high_def is_low_def utf8_bytes_def)
  have p: "createPongFrame [0xFFFD] False r = [0x8A, 3, 0xEF, 0xBF, 0xBD]" for r
    by (simp add: createPongFrame_def b generateMetaData_def)
  have 1: "processFrame App True 9 [0xFF]
        ((constructor App True (\<lambda>i. 0))\<lparr>readyState := OPEN\<rparr>)
     = Some (True, (constructor App True (\<lambda>i. 0))\<lparr>readyState := OPEN,
          trace := [SocketWrite [0x8A, 3, 0xEF, 0xBF, 0xBD]]\<rparr>)"
    by (simp add: processFrame_def t masked_out_def p socket_write_def constructor_def)
  have 2: "decodeFrame Lib False [0x8A, 3, 0xEF, 0xBF, 0xBD]
       = Some (Frame True 10 [0xEF, 0xBF, 0xBD] [])"
    by (simp add: decodeFrame_eq header_ok_def hdr_Cons frame_size_def hdr_size_def
        payload_len_def valid_opcode_def mask_violation_def frame_payload_def)
  from 1 2 show ?thesis by simp
qed

text \<open>
  C6, amended. On an open connection of either class and role, a ping with payload
  \<open>p\<close> makes \<open>processFrame\<close> write exactly one frame,
  \<open>createPongFrame(p.toString())\<close>, masked as the role demands, and emit nothing; the
  rest of the connection is as before. When \<open>p\<close> is well-formed UTF-8, the peer
  decodes that frame as a final pong whose payload is \<open>p\<close>, byte for byte.
\<close>

theorem ping_answered_with_pong:
  assumes "readyState c = OPEN" and "length p < 2 ^ 53"
  shows "processFrame impl fin 9 p c
           = Some (True, c\<lparr>trace := trace c @ [SocketWrite
                      (createPongFrame (toString p) (masked_out impl c) (rnd c))],
                    drawn := drawn c + (if masked_out impl c then 4 else 0)\<rparr>)
         \<and> (list_all scalar cps \<and> p = utf8 cps \<longrightarrow>
              decodeFrame Lib (masked_out impl c)
                (createPongFrame (toString p) (masked_out impl c) (rnd c))
              = Some (Frame True 10 p []))"
proof (intro conjI impI)
  show "processFrame impl fin 9 p c
           = Some (True, c\<lparr>trace := trace c @ [SocketWrite
                      (createPongFrame (toString p) (masked_out impl c) (rnd c))],
                    drawn := drawn c + (if masked_out impl c then 4 else 0)\<rparr>)"
    using assms(1) by (simp add: processFrame_def socket_write_def)
next
  assume a: "list_all scalar cps \<and> p = utf8 cps"
  then have rt: "Buffer_from (toString p) = p" using utf8_roundtrip by simp
  obtain meta payload' where
    gm: "generateMetaData True 10 (masked_out impl c) p (rnd c) = (meta, payload')"
    by (cases "generateMetaData True 10 (masked_out impl c) p (rnd c)")
  have len: "length p < 2 ^ 64" using assms(2) by simp
  have mv: "\<not> mask_violation Lib (masked_out impl c) (masked_out impl c)"
    by (simp add: mask_violation_def)
  have "decodeFrame Lib (masked_out impl c) (meta @ payload' @ []) = Some (Frame True 10 p [])"
    by (rule decode_generateMetaData[OF _ _ mv len gm]) (simp_all add: valid_opcode_def)
  then show "decodeFrame Lib (masked_out impl c)
                (createPongFrame (toString p) (masked_out impl c) (rnd c))
              = Some (Frame True 10 p [])"
    by (simp add: createPongFrame_def rt gm)
qed

text \<open>The ping \<open>abc\<close> on a server of the library is answered with \<open>8A 03 61 62 63\<close>.\<close>

theorem ping_answered_with_pong_witness:
  "readyState ((constructor Lib True (\<lambda>i. 0))\<lparr>readyState := OPEN\<rparr>) = OPEN
   \<and> length [0x61, 0x62, 0x63 :: byte] < 2 ^ 53
   \<and> processFrame Lib True 9 [0x61, 0x62, 0x63]
         ((constructor Lib True (\<lambda>i. 0))\<lparr>readyState := OPEN\<rparr>)
       = Some (True, (constructor Lib True (\<lambda>i. 0))\<lparr>readyState := OPEN,
            trace := [SocketWrite [0x8A, 3, 0x61, 0x62, 0x63]]\<rparr>)
   \<and> list_all scalar [0x61, 0x62, 0x63]
   \<and> [0x61, 0x62, 0x63] = utf8 [0x61, 0x62, 0x63]
   \<and> decodeFrame Lib False [0x8A, 3, 0x61, 0x62, 0x63]
       = Some (Frame True 10 [0x61, 0x62, 0x63] [])"
proof -
  have t: "toString [0x61, 0x62, 0x63] = [0x61, 0x62, 0x63]"
    by (simp add: toString_def utf16_units_def)
  have b: "Buffer_from [0x61, 0x62, 0x63] = [0x61, 0x62, 0x63]"
    by (simp add: Buffer_from_def is_high_def is_low_def utf8_bytes_def)
  have p: "createPongFrame [0x61, 0x62, 0x63] False r = [0x8A, 3, 0x61, 0x62, 0x63]" for r
    by (simp add: createPongFrame_def b generateMetaData_def)
  show ?thesis
    using ping_answered_with_pong[of "(constructor Lib True (\<lambda>i. 0))\<lparr>readyState := OPEN\<rparr>"
        "[0x61, 0x62, 0x63]" Lib True "[0x61, 0x62, 0x63]"]
    by (simp add: t p masked_out_def constructor_def scalar_def utf8_def utf8_bytes_def)
qed

subsection \<open>The \<open>close\<close> events of a lifetime\<close>

lemma close_events_emit:
  "close_events (emit e c) = close_events c + (if is_close e then 1 else 0)"
  by (simp add: close_events_def emit_def)

lemma close_events_socket_write [simp]: "close_events (socket_write m f c) = close_events c"
  by (simp add: close_events_def socket_write_def is_close_def)

lemma close_events_updates [simp]:
  "close_events (c\<lparr>readyState := s\<rparr>) = close_events c"
  "close_events (c\<lparr>buffer := b\<rparr>) = close_events c"
  "close_events (c\<lparr>frameBuffer := fb\<rparr>) = close_events c"
  "close_events (c\<lparr>outStream := os\<rparr>) = close_events c"
  by (simp_all add: close_events_def)

lemma readyState_emit [simp]: "readyState (emit e c) = readyState c"
  by (simp add: emit_def)

lemma readyState_socket_write [simp]: "readyState (socket_write m f c) = readyState c"
  by (simp add: socket_write_def)

lemma is_close_simps [simp]:
  "is_close (Emit_close code reason)" "\<not> is_close (SocketWrite f)" "\<not> is_close (SocketEnd x)"
  "\<not> is_close Emit_connect" "\<not> is_close (Emit_text t)" "\<not> is_close Emit_binary"
  "\<not> is_close (Emit_pong t)" "\<not> is_close Emit_error" "\<not> is_close (InStream_addData p)"
  "\<not> is_close InStream_end" "\<not> is_close OutStream_end"
  by (simp_all add: is_close_def)

lemma assemble_close [simp]:
  "close_events (assemble impl fin p c) = close_events c"
  "readyState (assemble impl fin p c) = readyState c"
  by (simp_all add: assemble_def Let_def close_events_emit split: frame_buffer.split)

lemma close_counts:
  assumes "close impl code reason c = Some c'"
  shows "close_events c' = close_events c + 1"
    and "readyState c' = (if readyState c = OPEN then CLOSING else CLOSED)"
  using assms
  by (auto simp: close_def close_events_emit split: if_splits bind_splits)

lemma close_inv_close:
  "close impl code reason c = Some c' \<Longrightarrow> close_inv c'"
  by (simp add: close_inv_def close_counts)

lemma onclose_counts:
  "close_events (onclose impl c)
     = (if readyState c = CONNECTING \<or> readyState c = OPEN then close_events c + 1
        else close_events c)"
  "readyState (onclose impl c) = CLOSED"
  by (simp_all add: onclose_def Let_def close_events_emit)

lemma close_inv_onclose: "close_inv c \<Longrightarrow> close_inv (onclose impl c)"
  by (auto simp add: close_inv_def onclose_counts)

lemma processCloseFrame_counts:
  assumes "processCloseFrame impl p c = Some c'"
  shows "close_events c' = close_events c + 1" and "readyState c' = CLOSED"
  using assms
  by (auto simp: processCloseFrame_def close_events_emit split: if_splits bind_splits prod.splits)

lemma processFrame_close_frame:
  assumes "processFrame impl fin 8 p c = Some (ok, c')"
  shows "close_events c' = (if readyState c = OPEN then close_events c + 1 else close_events c)"
  using assms
  by (auto simp: processFrame_def close_events_emit split: if_splits bind_splits
      dest: processCloseFrame_counts)

lemma close_inv_processFrame:
  assumes "processFrame impl fin opcode p c = Some (ok, c')" and "close_inv c"
  shows "close_inv c'"
  using assms
  by (auto simp: processFrame_def close_inv_def close_events_emit
      split: if_splits bind_splits dest: processCloseFrame_counts)

lemma close_inv_buffer [simp]: "close_inv (c\<lparr>buffer := b\<rparr>) = close_inv c"
  by (simp add: close_inv_def)

lemma close_inv_extractFrame:
  assumes "extractFrame impl c = Some (r, c')" and "close_inv c"
  shows "close_inv c'"
proof -
  obtain d where d: "decodeFrame impl (server c) (buffer c) = Some d"
    unfolding decodeFrame_eq by blast
  show ?thesis
  proof (cases d)
    case (Frame fin opcode payload rest)
    with assms(1) d obtain ok where
      "processFrame impl fin opcode payload (c\<lparr>buffer := rest\<rparr>) = Some (ok, c')"
      by (auto simp: extractFrame_def returned_def split: bind_splits)
    then show ?thesis using close_inv_processFrame assms(2) by fastforce
  qed (use assms d in \<open>auto simp: extractFrame_def\<close>)
qed

lemma close_inv_extract_loop:
  "extract_loop impl c = Some (r, c') \<Longrightarrow> close_inv c \<Longrightarrow> close_inv c'"
proof (induction impl c rule: extract_loop.induct)
  case (1 impl c)
  from "1.prems"(1) show ?case
    apply (subst (asm) extract_loop.simps)
    apply (auto split: option.splits if_splits)
    using "1.IH" "1.prems"(2) close_inv_extractFrame apply blast
    using "1.prems"(2) close_inv_extractFrame apply blast
    done
qed

lemma close_inv_readHandshake:
  assumes "hs_ok hs" and "close_inv c" and "readyState c = CONNECTING"
    and "readHandshake impl mbl hs c = (go, c')"
  shows "close_inv c'"
proof -
  have z: "close_events c = 0"
    using assms(2,3) by (simp add: close_inv_def)
  have h: "readyState (snd (hs b c)) = CONNECTING" "close_events (snd (hs b c)) = 0" for b
    using assms(1,3) z by (simp_all add: hs_ok_def)
  have k: "readyState c1 = CONNECTING \<and> close_events c1 = 0" if "hs b c = (ok, c1)" for b ok c1
    using h[of b] that by simp
  show ?thesis
    using assms(3,4) z
    by (auto simp: readHandshake_def Let_def close_inv_def close_events_emit
        split: if_splits impl.splits option.splits prod.splits dest!: k)
qed

lemma close_inv_doRead:
  assumes "hs_ok hs" and "close_inv c" and "doRead impl mbl hs chunk c = Some c'"
  shows "close_inv c'"
proof (cases chunk)
  case None
  with assms show ?thesis by (simp add: doRead_def)
next
  case (Some data)
  obtain go c2 where g: "handshake_gate impl mbl hs (c\<lparr>buffer := buffer c @ data\<rparr>) = (go, c2)"
    by (cases "handshake_gate impl mbl hs (c\<lparr>buffer := buffer c @ data\<rparr>)")
  have i2: "close_inv c2"
    using g assms(1,2) close_inv_readHandshake[of hs "c\<lparr>buffer := buffer c @ data\<rparr>" impl mbl _ c2]
    by (auto simp: handshake_gate_def split: if_splits prod.splits)
  show ?thesis
    using assms(3) Some g i2
    by (auto simp: doRead_def split: if_splits bind_splits
        dest: close_inv_extract_loop close_inv_close)
qed

lemma close_inv_step:
  "hs_ok hs \<Longrightarrow> close_inv c \<Longrightarrow> close_inv (step impl mbl hs e c)"
  by (auto simp: step_def split: event.splits option.splits
      dest: close_inv_doRead close_inv_close close_inv_onclose)

lemma close_inv_lifetime:
  "hs_ok hs \<Longrightarrow> close_inv c \<Longrightarrow> close_inv (lifetime impl mbl hs es c)"
  by (induction es arbitrary: c) (simp_all add: close_inv_step)

lemma close_inv_constructor: "close_inv (constructor impl srv ent)"
  by (simp add: close_inv_def constructor_def close_events_def)

lemma extract_loop_empty:
  "buffer c = [] \<Longrightarrow> extract_loop impl c = Some (None, c)"
  by (subst extract_loop.simps) (simp add: extractFrame_eq)

text \<open>
  An \<open>AppConnection\<close> completes its handshake, \<open>close(1000)\<close> is called twice and
  the socket closes: two \<open>close\<close> events.
\<close>

theorem close_events_counterexample:
  "close_events
     (lifetime App 2097152 (\<lambda>b c. (True, c))
        [Readable (Some [13, 10, 13, 10]),
         Close_call (Some 1000) None, Close_call (Some 1000) None, Socket_closed]
        (constructor App True (\<lambda>i. 0))) = 2"
proof -
  let ?hs = "\<lambda>(b :: bytes) (c :: conn). (True, c)"
  let ?c0 = "constructor App True (\<lambda>i. 0)"
  let ?c1 = "?c0\<lparr>readyState := OPEN, trace := [Emit_connect]\<rparr>"
  let ?c2 = "?c0\<lparr>readyState := CLOSING,
                trace := [Emit_connect, SocketWrite [0x88, 2, 3, 0xE8], Emit_close (Some 1000) None]\<rparr>"
  let ?c3 = "?c0\<lparr>readyState := CLOSED,
                trace := [Emit_connect, SocketWrite [0x88, 2, 3, 0xE8], Emit_close (Some 1000) None,
                          SocketEnd None, Emit_close (Some 1000) None]\<rparr>"
  have s1: "step App 2097152 ?hs (Readable (Some [13, 10, 13, 10])) ?c0 = ?c1"
    by (simp add: step_def doRead_def handshake_gate_def readHandshake_def constructor_def
        emit_def extract_loop_empty)
  have s2: "step App 2097152 ?hs (Close_call (Some 1000) None) ?c1 = ?c2"
    by (simp add: step_def close_def constructor_def createCloseFrame_code masked_out_def
        generateMetaData_def writeUInt16BE_def socket_write_def emit_def)
  have s3: "step App 2097152 ?hs (Close_call (Some 1000) None) ?c2 = ?c3"
    by (simp add: step_def close_def constructor_def emit_def)
  have s4: "close_events (step App 2097152 ?hs Socket_closed ?c3) = 2"
    by (simp add: step_def onclose_def constructor_def emit_def close_events_def is_close_def
        empty_slot_def empty_out_def)
  show ?thesis
    by (simp only: lifetime.simps s1 s2 s3 s4)
qed

lemma processFrame_close_total:
  "\<exists>ok c'. processFrame impl fin 8 p c = Some (ok, c')"
  using processFrame_total[of impl fin 8 p c] by auto

text \<open>
  Claim C7, as the code has it. Let \<open>c\<close> be a connection after any sequence of reads,
  \<open>close()\<close> calls and socket \<open>close\<close>/\<open>finish\<close> events, with a handshake that satisfies
  \<open>hs_ok\<close>. Then \<open>c\<close> has emitted no \<open>close\<close> event exactly when it is still
  \<open>CONNECTING\<close> or \<open>OPEN\<close>; the loss of the transport brings the number of \<open>close\<close>
  events to one if it was zero and leaves it otherwise; a close frame of the peer is
  processed, with one \<open>close\<close> event on an \<open>OPEN\<close> connection and none otherwise; and
  a call of \<open>close()\<close> adds one \<open>close\<close> event in every state, unless it throws.
\<close>

theorem close_events_of_lifetime:
  assumes "hs_ok hs"
  shows "let c = lifetime impl mbl hs es (constructor impl srv ent) in
           ((readyState c = CONNECTING \<or> readyState c = OPEN) = (close_events c = 0))
         \<and> close_events (step impl mbl hs Socket_closed c) = max 1 (close_events c)
         \<and> (\<exists>ok c'. processFrame impl fin 8 payload c = Some (ok, c')
                \<and> close_events c' = (if readyState c = OPEN then 1 else close_events c))
         \<and> close_events (step impl mbl hs (Close_call code reason) c)
             = close_events c + (if close impl code reason c = None then 0 else 1)"
proof -
  define c where "c = lifetime impl mbl hs es (constructor impl srv ent)"
  have inv: "close_inv c"
    unfolding c_def using assms close_inv_constructor by (rule close_inv_lifetime)
  have a: "(readyState c = CONNECTING \<or> readyState c = OPEN) = (close_events c = 0)"
    using inv by (simp add: close_inv_def)
  have b: "close_events (step impl mbl hs Socket_closed c) = max 1 (close_events c)"
    using a by (auto simp: step_def onclose_counts)
  obtain ok c' where p: "processFrame impl fin 8 payload c = Some (ok, c')"
    using processFrame_close_total by blast
  have "close_events c' = (if readyState c = OPEN then 1 else close_events c)"
    using processFrame_close_frame[OF p] a by auto
  with p have d: "\<exists>ok c'. processFrame impl fin 8 payload c = Some (ok, c')
                \<and> close_events c' = (if readyState c = OPEN then 1 else close_events c)"
    by blast
  have e: "close_events (step impl mbl hs (Close_call code reason) c)
             = close_events c + (if close impl code reason c = None then 0 else 1)"
    by (auto simp: step_def close_counts split: option.splits)
  show ?thesis
    unfolding Let_def c_def[symmetric] using a b d e by blast
qed

text \<open>After the handshake and one \<open>close(1000)\<close>, on an \<open>AppConnection\<close>.\<close>

theorem close_events_of_lifetime_witness:
  "hs_ok (\<lambda>b c. (True, c))
   \<and> (let c = lifetime App 2097152 (\<lambda>b c. (True, c))
                 [Readable (Some [13, 10, 13, 10]), Close_call (Some 1000) None]
                 (constructor App True (\<lambda>i. 0)) in
        ((readyState c = CONNECTING \<or> readyState c = OPEN) = (close_events c = 0))
        \<and> close_events (step App 2097152 (\<lambda>b c. (True, c)) Socket_closed c) = max 1 (close_events c)
        \<and> (\<exists>ok c'. processFrame App True 8 [3, 232] c = Some (ok, c')
                \<and> close_events c' = (if readyState c = OPEN then 1 else close_events c))
        \<and> close_events (step App 2097152 (\<lambda>b c. (True, c)) (Close_call (Some 1000) None) c)
             = close_events c + (if close App (Some 1000) None c = None then 0 else 1))"
  using close_events_of_lifetime[of "\<lambda>b c. (True, c)" App 2097152
      "[Readable (Some [13, 10, 13, 10]), Close_call (Some 1000) None]" True "\<lambda>i. 0"
      True "[3, 232]" "Some 1000" None]
  by (simp add: hs_ok_def)

subsection \<open>A buffer over \<open>maxBufferLength\<close>\<close>

















subsection \<open>The sign dispatcher\<close>

text \<open>The record of calls only grows.\<close>

lemma next_loop_extends: "\<exists>tr'. snd (next_loop cbs a i k tr) = tr @ tr'"
  by (induction cbs a i k tr rule: next_loop.induct) auto

text \<open>
  Handlers that call \<open>next()\<close> once each run one after the other, in the order of the
  array, which is the order of registration; a handler that does not call \<open>next()\<close>
  is the last to run.
\<close>

lemma next_loop_all_next:
  "(\<forall>h \<in> set cbs. body h a = [Call_next]) \<Longrightarrow> - 1 \<le> i \<Longrightarrow> set k \<subseteq> {Call_next} \<Longrightarrow>
   next_loop cbs a i k tr
     = (Returned, tr @ (if k = [] then [] else map (\<lambda>h. Invoked (label h) a) (drop (nat (i + 1)) cbs)))"
proof (induction cbs a i k tr rule: next_loop.induct)
  case (3 cbs a i k tr)
  show ?case
  proof (cases "i + 1 < int (length cbs)")
    case True
    then have n: "nat (i + 1) < length cbs" using "3.prems"(2) by simp
    have b: "body (cbs ! nat (i + 1)) a = [Call_next]"
      using "3.prems"(1) n by simp
    have "nat (i + 1 + 1) = Suc (nat (i + 1))"
      using "3.prems"(2) by simp
    then have d: "drop (nat (i + 1)) cbs = cbs ! nat (i + 1) # drop (nat (i + 1 + 1)) cbs"
      using n by (simp only: Cons_nth_drop_Suc)
    show ?thesis
      using "3.IH"(1)[OF True] "3.prems" True b d by simp
  next
    case False
    then have "drop (nat (i + 1)) cbs = []" "drop (nat (i + 1 + 1)) cbs = []" by simp_all
    then show ?thesis
      using "3.IH"(2)[OF False] "3.prems" False by simp
  qed
qed simp_all

lemma chain_in_registration_order:
  assumes "\<forall>h \<in> set cbs. body h a = [Call_next]"
  shows "chain cbs a tr = (Returned, tr @ map (\<lambda>h. Invoked (label h) a) cbs)"
  using next_loop_all_next[OF assms, of "- 1" "[Call_next]" tr] by (simp add: chain_def)

lemma chain_stops_without_next:
  "body h a = [] \<Longrightarrow> chain (h # cbs) a tr = (Returned, tr @ [Invoked (label h) a])"
  by (simp add: chain_def)

lemma sign_appends:
  "sign s cbs2 (sign s cbs1 signs) s = Some ((case signs s of Some cbs \<Rightarrow> cbs | None \<Rightarrow> []) @ cbs1 @ cbs2)"
  by (simp add: sign_def split: option.split)

lemma chain_Cons:
  "chain (h # cbs) a tr = next_loop (h # cbs) a 0 (body h a) (tr @ [Invoked (label h) a])"
  by (simp add: chain_def)

text \<open>
  Claim C9, at the text \<open>null\<close>. \<open>JSON.parse\<close> returns \<open>null\<close> for it, so the text
  parses; the destructuring of \<open>null\<close> throws inside the \<open>try\<close> block, and the
  \<open>catch\<close> block runs the \<open>noJSON\<close> chain: with a handler \<open>h\<close> at the head of that
  chain, the listener is the run of the chain on the text, and \<open>h\<close> is the first
  handler called, with the text itself.
\<close>

theorem noJSON_chain_on_JSON_null:
  assumes "JSON_parse s = Some JNull" and "signs (str ''noJSON'') = Some (h # cbs)"
  shows "text_listener JSON_parse signs s = chain (h # cbs) (Raw s) []
         \<and> (\<exists>rest. snd (text_listener JSON_parse signs s) = Invoked (label h) (Raw s) # rest)"
proof -
  have t: "text_listener JSON_parse signs s = chain (h # cbs) (Raw s) []"
    using assms by (simp add: text_listener_def try_block_def destructure_def catch_block_def)
  obtain tr' where
    "snd (next_loop (h # cbs) (Raw s) 0 (body h (Raw s)) ([] @ [Invoked (label h) (Raw s)]))
       = ([] @ [Invoked (label h) (Raw s)]) @ tr'"
    using next_loop_extends by blast
  then have "snd (chain (h # cbs) (Raw s) []) = Invoked (label h) (Raw s) # tr'"
    by (simp add: chain_Cons)
  with t show ?thesis by simp
qed

text \<open>
  With \<open>app.sign('unknow', u).sign('noJSON', h)\<close>, the text \<open>null\<close> calls \<open>h\<close> and not
  \<open>u\<close>.
\<close>

theorem noJSON_chain_on_JSON_null_witness:
  "(\<lambda>s. if s = str ''null'' then Some JNull else None) (str ''null'') = Some JNull
   \<and> sign (str ''noJSON'') [Handler ''h'' (\<lambda>a. [])]
        (sign (str ''unknow'') [Handler ''u'' (\<lambda>a. [Call_next])] Map.empty) (str ''noJSON'')
       = Some [Handler ''h'' (\<lambda>a. [])]
   \<and> text_listener (\<lambda>s. if s = str ''null'' then Some (JNull :: nat json) else None)
        (sign (str ''noJSON'') [Handler ''h'' (\<lambda>a. [])]
           (sign (str ''unknow'') [Handler ''u'' (\<lambda>a. [Call_next])] Map.empty))
        (str ''null'')
       = (Returned, [Invoked ''h'' (Raw (str ''null''))])"
  using noJSON_chain_on_JSON_null[of "\<lambda>s. if s = str ''null'' then Some (JNull :: nat json) else None"
      "str ''null''"
      "sign (str ''noJSON'') [Handler ''h'' (\<lambda>a. [])]
           (sign (str ''unknow'') [Handler ''u'' (\<lambda>a. [Call_next])] Map.empty)"
      "Handler ''h'' (\<lambda>a. [])" "[]"]
  by (simp add: sign_def str_def chain_def)

text \<open>
  The \<open>try\<close> block also holds the run of the chain: a handler of a sign that throws
  starts the \<open>noJSON\<close> chain on a text that has parsed.
\<close>

lemma throwing_handler_starts_noJSON_chain:
  assumes "JSON_parse s = Some (JObject [(str ''sign'', JString k)])"
    and "signs k = Some [h]" and "body h (Data None) = [Throw]"
    and "signs (str ''noJSON'') = Some [n]" and "body n (Raw s) = []"
  shows "text_listener JSON_parse signs s
           = (Returned, [Invoked (label h) (Data None), Invoked (label n) (Raw s)])"
  using assms
  by (simp add: text_listener_def try_block_def destructure_def catch_block_def chain_def
      signs_get_def log_argument_def str_def)

text \<open>
  So does the log line: the text \<open>{"sign":{"toString":1}}\<close> parses, its \<open>sign\<close> cannot
  be converted to a string, and the \<open>noJSON\<close> chain runs.
\<close>

lemma log_line_starts_noJSON_chain:
  assumes "JSON_parse s = Some (JObject [(str ''sign'', JObject [(str ''toString'', v)])])"
    and "signs (str ''noJSON'') = Some [n]" and "body n (Raw s) = []"
  shows "text_listener JSON_parse signs s = (Returned, [Invoked (label n) (Raw s)])"
  using assms
  by (simp add: text_listener_def try_block_def destructure_def catch_block_def chain_def
      log_argument_def str_def)

end
